theory Spec2Isabelle
  imports Main
begin

section \<open>A shallow embedding of github-webhook.js\<close>

text \<open>
  The server is a single Node process: every callback runs to its next \<open>await\<close> without
  interruption, and the only state shared between requests is the set \<open>runningDeploys\<close>.
  The embedding keeps that shape. Each synchronous stretch of the source is a function on
  an explicit server state; each \<open>await\<close> is a suspended continuation that a later event
  resumes; everything the server does to the outside (HTTP responses, calls to the GitHub
  API, child processes, the log file) is appended to a trace in program order. Changes of
  \<open>runningDeploys\<close> are recorded in the same trace, so that their order relative to the other
  effects can be read off. Console output is not modelled.

  Strings are lists of 8-bit characters. JavaScript counts UTF-16 code units where this
  model counts bytes; the two agree on ASCII text.

  The source file holds two versions of the server one after the other: \<open>webhook.js\<close>
  (lines 1 to 226) and its successor \<open>github-webhook.js\<close> (from line 228), which adds
  the fetch and checkout, the log files, \<open>reportErrorAndCleanup\<close> and \<open>withDeployLock\<close>.
  The embedding follows the successor, and line numbers refer to it. \<open>verify\<close>, the
  status reporter, the event filter and the rolling buffer of \<open>saveLines\<close> read the same
  in both.
\<close>

subsection \<open>Strings\<close>

definition nl :: string where
  "nl = [CHR 0x0A]"

definition fence :: string where
  "fence = ''```''"

text \<open>The bytes of U+1F6A8, which opens every comment the server writes.\<close>

definition siren :: string where
  "siren = [CHR 0xF0, CHR 0x9F, CHR 0x9A, CHR 0xA8]"

text \<open>\<open>s.split(c)\<close> for a one-character separator: never an empty array.\<close>

fun split_on :: "char \<Rightarrow> string \<Rightarrow> string list" where
  "split_on c [] = [[]]"
| "split_on c (x # xs) =
     (if x = c then [] # split_on c xs
      else (case split_on c xs of
              [] \<Rightarrow> [[x]]
            | y # ys \<Rightarrow> (x # y) # ys))"

text \<open>\<open>xs.join(sep)\<close> on an array of strings.\<close>

fun join :: "string \<Rightarrow> string list \<Rightarrow> string" where
  "join sep [] = []"
| "join sep [x] = x"
| "join sep (x # y # ys) = x @ sep @ join sep (y # ys)"

text \<open>
  \<open>s.trim()\<close>: the ASCII white space and line terminators (tab, line feed, vertical tab,
  form feed, carriage return, space) are stripped from both ends.
\<close>

definition is_space :: "char \<Rightarrow> bool" where
  "is_space c = (c \<in> set [CHR 0x09, CHR 0x0A, CHR 0x0B, CHR 0x0C, CHR 0x0D, CHR 0x20])"

definition trim :: "string \<Rightarrow> string" where
  "trim s = rev (dropWhile is_space (rev (dropWhile is_space s)))"

text \<open>\<open>xs.slice(-n)\<close>: the last \<open>n\<close> elements, all of them when there are fewer.\<close>

definition slice_last :: "nat \<Rightarrow> 'a list \<Rightarrow> 'a list" where
  "slice_last n xs = drop (length xs - n) xs"

text \<open>Decimal rendering of integers, for template strings.\<close>

function show_nat :: "nat \<Rightarrow> string" where
  "show_nat n =
     (if n < 10 then [char_of (48 + n)]
      else show_nat (n div 10) @ [char_of (48 + n mod 10)])"
  by pat_completeness auto
termination
  by (relation "measure id") auto

definition show_int :: "int \<Rightarrow> string" where
  "show_int i = (if i < 0 then CHR ''-'' # show_nat (nat (- i)) else show_nat (nat i))"

subsection \<open>The rolling buffer of \<open>saveLines\<close>\<close>

text \<open>
  \<^verbatim>\<open>lines.push(trimmed); ... if (lines.length > 50) lines.shift();\<close>
\<close>

definition push_line :: "string list \<Rightarrow> string \<Rightarrow> string list" where
  "push_line lines trimmed =
     (let pushed = lines @ [trimmed]
      in if length pushed > 50 then tl pushed else pushed)"

text \<open>
  The lines of one chunk that reach the buffer: split at line feeds, trimmed, the empty
  ones dropped.
\<close>

definition chunk_lines :: "string \<Rightarrow> string list" where
  "chunk_lines data = filter (\<lambda>t. t \<noteq> []) (map trim (split_on (CHR 0x0A) data))"

definition buffer_after :: "string list \<Rightarrow> string list" where
  "buffer_after appended = foldl push_line [] appended"

subsection \<open>JavaScript values\<close>

text \<open>
  What \<open>JSON.parse\<close> returns. A number is kept as an integer: the program only tests
  numbers for being zero and renders them in template strings. An absent property is
  \<open>undefined\<close>, the value \<open>None\<close> of \<open>jsval\<close>.
\<close>

datatype json =
    JNull
  | JBool bool
  | JNum int
  | JStr string
  | JArr "json list"
  | JObj "(string \<times> json) list"

type_synonym jsval = "json option"

fun truthy :: "jsval \<Rightarrow> bool" where
  "truthy None = False"
| "truthy (Some JNull) = False"
| "truthy (Some (JBool b)) = b"
| "truthy (Some (JNum n)) = (n \<noteq> 0)"
| "truthy (Some (JStr s)) = (s \<noteq> [])"
| "truthy (Some (JArr xs)) = True"
| "truthy (Some (JObj kvs)) = True"

text \<open>
  Conversion to a string, as a template string does it. An array joins its elements with
  commas, \<open>null\<close> elements as empty strings; an object is \<open>[object Object]\<close>.
\<close>

fun js_string :: "json \<Rightarrow> string" where
  "js_string JNull = ''null''"
| "js_string (JBool b) = (if b then ''true'' else ''false'')"
| "js_string (JNum n) = show_int n"
| "js_string (JStr s) = s"
| "js_string (JArr xs) = join '','' (map (\<lambda>x. if x = JNull then [] else js_string x) xs)"
| "js_string (JObj kvs) = ''[object Object]''"

definition tmpl :: "jsval \<Rightarrow> string" where
  "tmpl v = (case v of None \<Rightarrow> ''undefined'' | Some j \<Rightarrow> js_string j)"

text \<open>
  Reading a property of a value that is not \<open>null\<close>: an object looks the key up, every
  other value has none of the properties this program reads.
\<close>

fun js_get :: "json \<Rightarrow> string \<Rightarrow> jsval" where
  "js_get (JObj kvs) k = map_of kvs k"
| "js_get v k = None"

text \<open>An error object, as far as the program reads it.\<close>

datatype js_error = JsError (message: string) (stack: string)

text \<open>\<^verbatim>\<open>err.stack || err.message\<close>\<close>

definition stack_or_message :: "js_error \<Rightarrow> string" where
  "stack_or_message err = (if stack err \<noteq> [] then stack err else message err)"

text \<open>
  \<^verbatim>\<open>err.message || err\<close> in a string concatenation; \<open>runGit\<close> rejects with
  \<open>new Error(output)\<close>, which renders as \<open>Error\<close> when its message is empty.
\<close>

definition message_or_error :: "js_error \<Rightarrow> string" where
  "message_or_error err = (if message err \<noteq> [] then message err else ''Error'')"

text \<open>The faults of the runtime that the handler can run into.\<close>

datatype fault =
    PropertyOfNull string
  | NotAFunction string
  | LengthMismatch
  | InvalidPathArgument

subsection \<open>Configuration and surroundings\<close>

text \<open>
  The environment variables read at start-up. \<open>WEBHOOK_SECRET\<close> defaults to the empty
  string; the other two may be undefined.
\<close>

record config =
  SECRET :: string
  TOKEN :: "string option"
  LOG_DIR :: "string option"

definition is_set :: "string option \<Rightarrow> bool" where
  "is_set v = (case v of None \<Rightarrow> False | Some s \<Rightarrow> s \<noteq> [])"

text \<open>
  What the program takes from Node and from the machine it runs on: the HMAC of
  \<open>crypto\<close>, \<open>JSON.parse\<close>, the error objects the runtime throws, \<open>path.join\<close>, and the
  file system as \<open>fs.accessSync\<close> and \<open>fs.promises.stat\<close> see it.
\<close>

record world =
  hmac_sha256_hex :: "string \<Rightarrow> string \<Rightarrow> string"
  json_parse :: "string \<Rightarrow> js_error + json"
  thrown :: "fault \<Rightarrow> js_error"
  path_join :: "string list \<Rightarrow> string"
  access_ok :: "string \<Rightarrow> bool"
  is_file :: "string \<Rightarrow> bool"

subsection \<open>\<open>verify\<close>\<close>

text \<open>
  \<open>crypto.timingSafeEqual\<close> on the two buffers: it throws when their lengths differ and
  compares them byte by byte otherwise.
\<close>

definition timingSafeEqual :: "world \<Rightarrow> string \<Rightarrow> string \<Rightarrow> js_error + bool" where
  "timingSafeEqual w a b =
     (if length a \<noteq> length b then Inl (thrown w LengthMismatch) else Inr (a = b))"

definition expected_signature :: "world \<Rightarrow> config \<Rightarrow> string \<Rightarrow> string" where
  "expected_signature w cfg raw = ''sha256='' @ hmac_sha256_hex w (SECRET cfg) raw"

definition verify :: "world \<Rightarrow> config \<Rightarrow> string option \<Rightarrow> string \<Rightarrow> bool" where
  "verify w cfg sigHeader raw =
     (if SECRET cfg = [] then True
      else if \<not> is_set sigHeader then False
      else (case timingSafeEqual w (expected_signature w cfg raw) (the sigHeader) of
              Inl err \<Rightarrow> False
            | Inr same \<Rightarrow> same))"

subsection \<open>Server state, effects and suspended code\<close>

datatype api_body =
    StatusBody string string string
  | CommentBody string

datatype effect =
    Respond nat string
  | ServeLog string
  | LockAdd string
  | LockDelete string
  | ApiCall string string api_body
  | Spawn string "json list" string
  | Mkdir string
  | OpenLog string
  | WriteLog string string
  | EndLog string
  | UnhandledRejection js_error

text \<open>The variables a deploy closes over (lines 402 to 417).\<close>

record deploy =
  repo :: jsval
  sha :: json
  repoName :: jsval
  deployKey :: string
  cwd :: string

text \<open>
  Who called \<open>reportErrorAndCleanup\<close>: when \<open>deployFn\<close> did, its return settles the promise
  on which \<open>withDeployLock\<close> hung \<^verbatim>\<open>.finally(() => runningDeploys.delete(deployKey))\<close>.
\<close>

datatype caller = FromDeployFn string | Standalone

text \<open>Code suspended at an \<open>await\<close>, named after what it waits for.\<close>

datatype coroutine =
    AwaitPending deploy
  | AwaitFetch deploy
  | AwaitCheckout deploy
  | AwaitMkdir deploy string
  | AwaitReportStatus jsval jsval "string option" caller
  | AwaitReportComment caller
  | AwaitCloseStatus jsval jsval "string option"
  | AwaitCloseComment
  | Finished

text \<open>A deploy process with the handlers of lines 474 to 527 attached.\<close>

record process =
  origin :: deploy
  lines :: "string list"
  logStream :: "string option"
  closed :: bool

record server =
  runningDeploys :: "string set"
  trace :: "effect list"
  coroutines :: "coroutine list"
  processes :: "process list"

definition init :: server where
  "init = \<lparr>runningDeploys = {}, trace = [], coroutines = [], processes = []\<rparr>"

definition emit :: "effect \<Rightarrow> server \<Rightarrow> server" where
  "emit e s = s\<lparr>trace := trace s @ [e]\<rparr>"

definition lock_add :: "string \<Rightarrow> server \<Rightarrow> server" where
  "lock_add k s = emit (LockAdd k) (s\<lparr>runningDeploys := insert k (runningDeploys s)\<rparr>)"

definition lock_delete :: "string \<Rightarrow> server \<Rightarrow> server" where
  "lock_delete k s = emit (LockDelete k) (s\<lparr>runningDeploys := runningDeploys s - {k}\<rparr>)"

definition suspend :: "coroutine \<times> server \<Rightarrow> server" where
  "suspend cs = (case cs of (c, s) \<Rightarrow> s\<lparr>coroutines := coroutines s @ [c]\<rparr>)"

subsection \<open>Status reporter\<close>

definition callGitHub :: "config \<Rightarrow> string \<Rightarrow> string \<Rightarrow> api_body \<Rightarrow> server \<Rightarrow> server" where
  "callGitHub cfg meth path body s =
     (if \<not> is_set (TOKEN cfg) then s else emit (ApiCall meth path body) s)"

definition setStatus :: "config \<Rightarrow> jsval \<Rightarrow> jsval \<Rightarrow> string \<Rightarrow> string \<Rightarrow> server \<Rightarrow> server" where
  "setStatus cfg rp sh state desc s =
     (if \<not> truthy rp \<or> \<not> truthy sh then s
      else callGitHub cfg ''POST'' (''/repos/'' @ tmpl rp @ ''/statuses/'' @ tmpl sh)
             (StatusBody state (take 140 desc) ''github-deploy'') s)"

definition addComment :: "config \<Rightarrow> jsval \<Rightarrow> jsval \<Rightarrow> string \<Rightarrow> server \<Rightarrow> server" where
  "addComment cfg rp sh body s =
     (if \<not> truthy rp \<or> \<not> truthy sh then s
      else callGitHub cfg ''POST'' (''/repos/'' @ tmpl rp @ ''/commits/'' @ tmpl sh @ ''/comments'')
             (CommentBody (take 65536 body)) s)"

text \<open>
  \<open>reportErrorAndCleanup\<close> up to its first \<open>await\<close>: the key, when one is passed, leaves
  the set before the status is sent.
\<close>

definition reportErrorAndCleanup ::
  "config \<Rightarrow> jsval \<Rightarrow> jsval \<Rightarrow> string \<Rightarrow> string option \<Rightarrow> string option \<Rightarrow> caller \<Rightarrow>
   server \<Rightarrow> coroutine \<times> server" where
  "reportErrorAndCleanup cfg rp sh errorMsg commentBody key who s =
     (AwaitReportStatus rp sh commentBody who,
      setStatus cfg rp sh ''error'' errorMsg (if is_set key then lock_delete (the key) s else s))"

text \<open>The caller's code after \<open>reportErrorAndCleanup\<close> has returned.\<close>

definition return_to :: "caller \<Rightarrow> server \<Rightarrow> server" where
  "return_to who s = (case who of FromDeployFn k \<Rightarrow> lock_delete k s | Standalone \<Rightarrow> s)"

subsection \<open>The event filter (lines 394 to 417)\<close>

datatype decision = Ignore | Deploy deploy

text \<open>\<^verbatim>\<open>sha.slice(0, 7)\<close> is a call: strings and arrays have the method.\<close>

fun has_slice :: "json \<Rightarrow> bool" where
  "has_slice (JStr s) = True"
| "has_slice (JArr xs) = True"
| "has_slice v = False"

text \<open>\<^verbatim>\<open>ref.split('/').pop()\<close>, for a string.\<close>

definition branch_of :: "string \<Rightarrow> string" where
  "branch_of ref = last (split_on CHR ''/'' ref)"

definition filter_event :: "world \<Rightarrow> json \<Rightarrow> js_error + decision" where
  "filter_event w event =
     (if event = JNull then Inl (thrown w (PropertyOfNull ''ref''))
      else if \<not> truthy (js_get event ''ref'') \<or> \<not> truthy (js_get event ''after'') \<or>
              \<not> truthy (js_get event ''repository'') \<or> truthy (js_get event ''deleted'')
      then Inr Ignore
      else
        (case (js_get event ''ref'', js_get event ''after'', js_get event ''repository'') of
           (Some (JStr ref), Some after, Some repository) \<Rightarrow>
             (let branch = branch_of ref in
              if \<not> has_slice after then Inl (thrown w (NotAFunction ''sha.slice''))
              else if branch \<noteq> ''main'' \<and> branch \<noteq> ''master'' then Inr Ignore
              else Inr (Deploy
                     \<lparr>repo = js_get repository ''full_name'',
                      sha = after,
                      repoName = js_get repository ''name'',
                      deployKey = tmpl (js_get repository ''full_name'') @ '':'' @ branch,
                      cwd = ''repos/'' @ tmpl (js_get repository ''name'')\<rparr>))
         | other \<Rightarrow> Inl (thrown w (NotAFunction ''ref.split''))))"

subsection \<open>The deploy (lines 420 to 531)\<close>

definition git_failed_comment :: "js_error \<Rightarrow> string" where
  "git_failed_comment err =
     siren @ '' Git fetch/checkout failed:'' @ nl @ nl @ fence @ nl @ message_or_error err @ nl @ fence"

definition exit_code :: "int option \<Rightarrow> string" where
  "exit_code code = (case code of None \<Rightarrow> ''null'' | Some c \<Rightarrow> show_int c)"

definition fenced_tail :: "string list \<Rightarrow> string" where
  "fenced_tail captured = fence @ nl @ join nl (slice_last 20 captured) @ nl @ fence"

definition deploy_failed_comment :: "int option \<Rightarrow> string list \<Rightarrow> string" where
  "deploy_failed_comment code captured =
     siren @ '' Deploy failed (exit code: '' @ exit_code code @ '')'' @ nl @ nl @ fenced_tail captured"

definition launch_failed_comment :: "js_error \<Rightarrow> string" where
  "launch_failed_comment err =
     siren @ '' Deploy process failed to start:'' @ nl @ nl @ fence @ nl @ message err @ nl @ fence"

definition internal_error_comment :: "js_error \<Rightarrow> string" where
  "internal_error_comment err =
     siren @ '' Webhook internal error:'' @ nl @ nl @ fence @ nl @ stack_or_message err @ nl @ fence"

text \<open>\<open>runGit\<close> as far as it runs before its promise is awaited: the spawn.\<close>

definition runGit :: "json list \<Rightarrow> string \<Rightarrow> server \<Rightarrow> server" where
  "runGit args dir s = emit (Spawn ''git'' args dir) s"

text \<open>\<open>deployFn\<close> from its start to its first \<open>await\<close>.\<close>

definition deployFn :: "world \<Rightarrow> config \<Rightarrow> deploy \<Rightarrow> server \<Rightarrow> coroutine \<times> server" where
  "deployFn w cfg d s =
     (if \<not> access_ok w (cwd d)
      then reportErrorAndCleanup cfg (repo d) (Some (sha d)) ''Repository directory not found''
             None (Some (deployKey d)) (FromDeployFn (deployKey d)) s
      else (AwaitPending d, setStatus cfg (repo d) (Some (sha d)) ''pending'' ''Deploy started'' s))"

definition withDeployLock ::
  "string \<Rightarrow> (server \<Rightarrow> coroutine \<times> server) \<Rightarrow> server \<Rightarrow> server" where
  "withDeployLock key fn s =
     (if key \<in> runningDeploys s then s else suspend (fn (lock_add key s)))"

definition git_failed :: "config \<Rightarrow> deploy \<Rightarrow> js_error \<Rightarrow> server \<Rightarrow> coroutine \<times> server" where
  "git_failed cfg d err s =
     reportErrorAndCleanup cfg (repo d) (Some (sha d)) ''Git fetch/checkout failed''
       (Some (git_failed_comment err)) (Some (deployKey d)) (FromDeployFn (deployKey d)) s"

text \<open>
  Lines 468 to 528: the spawn, the handlers, and the end of \<open>deployFn\<close>, at which the
  \<open>finally\<close> of \<open>withDeployLock\<close> runs.
\<close>

definition launch :: "deploy \<Rightarrow> string option \<Rightarrow> server \<Rightarrow> coroutine \<times> server" where
  "launch d logPath s =
     (let s1 = emit (Spawn ''just'' [JStr ''github-deploy'', sha d] (cwd d)) s;
          s2 = s1\<lparr>processes := processes s1 @
                  [\<lparr>origin = d, lines = [], logStream = logPath, closed = False\<rparr>]\<rparr>
      in (Finished, lock_delete (deployKey d) s2))"

text \<open>
  Lines 458 to 466. \<open>path.join\<close> throws on an argument that is not a string, and nothing
  catches what \<open>deployFn\<close> throws after the checkout.
\<close>

definition prepare_launch :: "world \<Rightarrow> config \<Rightarrow> deploy \<Rightarrow> server \<Rightarrow> coroutine \<times> server" where
  "prepare_launch w cfg d s =
     (if is_set (LOG_DIR cfg) then
        (case repoName d of
           Some (JStr name) \<Rightarrow>
             (let logDir = path_join w [the (LOG_DIR cfg), name];
                  logPath = path_join w [logDir, js_string (sha d) @ ''.txt'']
              in (AwaitMkdir d logPath, emit (Mkdir logDir) s))
         | other \<Rightarrow>
             (Finished,
              emit (UnhandledRejection (thrown w InvalidPathArgument)) (lock_delete (deployKey d) s)))
      else launch d None s)"

text \<open>A call to the GitHub API has settled (\<open>callGitHub\<close> never rejects).\<close>

definition resume_api :: "config \<Rightarrow> coroutine \<Rightarrow> server \<Rightarrow> coroutine \<times> server" where
  "resume_api cfg c s =
     (case c of
        AwaitPending d \<Rightarrow>
          (AwaitFetch d, runGit [JStr ''fetch'', JStr ''origin'', sha d] (cwd d) s)
      | AwaitReportStatus rp sh body who \<Rightarrow>
          (if is_set body then (AwaitReportComment who, addComment cfg rp sh (the body) s)
           else (Finished, return_to who s))
      | AwaitReportComment who \<Rightarrow> (Finished, return_to who s)
      | AwaitCloseStatus rp sh body \<Rightarrow>
          (case body of
             None \<Rightarrow> (Finished, s)
           | Some text \<Rightarrow> (AwaitCloseComment, addComment cfg rp sh text s))
      | AwaitCloseComment \<Rightarrow> (Finished, s)
      | other \<Rightarrow> (c, s))"

text \<open>A \<open>runGit\<close> promise has settled: resolved with the output or rejected.\<close>

definition resume_git ::
  "world \<Rightarrow> config \<Rightarrow> js_error + string \<Rightarrow> coroutine \<Rightarrow> server \<Rightarrow> coroutine \<times> server" where
  "resume_git w cfg res c s =
     (case c of
        AwaitFetch d \<Rightarrow>
          (case res of
             Inr out \<Rightarrow> (AwaitCheckout d, runGit [JStr ''checkout'', JStr ''FETCH_HEAD''] (cwd d) s)
           | Inl err \<Rightarrow> git_failed cfg d err s)
      | AwaitCheckout d \<Rightarrow>
          (case res of
             Inr out \<Rightarrow> prepare_launch w cfg d s
           | Inl err \<Rightarrow> git_failed cfg d err s)
      | other \<Rightarrow> (c, s))"

definition resume_mkdir :: "js_error option \<Rightarrow> coroutine \<Rightarrow> server \<Rightarrow> coroutine \<times> server" where
  "resume_mkdir res c s =
     (case c of
        AwaitMkdir d logPath \<Rightarrow>
          (case res of
             None \<Rightarrow> launch d (Some logPath) (emit (OpenLog logPath) s)
           | Some err \<Rightarrow>
               (Finished, emit (UnhandledRejection err) (lock_delete (deployKey d) s)))
      | other \<Rightarrow> (c, s))"

subsection \<open>Handlers of the deploy process\<close>

definition saveLine :: "process \<times> server \<Rightarrow> string \<Rightarrow> process \<times> server" where
  "saveLine ps trimmed =
     (case ps of (p, s) \<Rightarrow>
        (p\<lparr>lines := push_line (lines p) trimmed\<rparr>,
         (case logStream p of
            None \<Rightarrow> s
          | Some path \<Rightarrow> emit (WriteLog path (trimmed @ nl)) s)))"

definition saveLines :: "process \<Rightarrow> string \<Rightarrow> server \<Rightarrow> process \<times> server" where
  "saveLines p data s = foldl saveLine (p, s) (chunk_lines data)"

definition on_close :: "config \<Rightarrow> process \<Rightarrow> int option \<Rightarrow> server \<Rightarrow> coroutine \<times> server" where
  "on_close cfg p code s =
     (let s1 = (case logStream p of None \<Rightarrow> s | Some path \<Rightarrow> emit (EndLog path) s);
          success = (code = Some 0);
          d = origin p
      in (AwaitCloseStatus (repo d) (Some (sha d))
            (if success then None else Some (deploy_failed_comment code (lines p))),
          setStatus cfg (repo d) (Some (sha d))
            (if success then ''success'' else ''failure'')
            (if success then ''Deploy complete'' else ''Deploy failed'') s1))"

definition on_error :: "config \<Rightarrow> process \<Rightarrow> js_error \<Rightarrow> server \<Rightarrow> coroutine \<times> server" where
  "on_error cfg p err s =
     reportErrorAndCleanup cfg (repo (origin p)) (Some (sha (origin p)))
       ''Deploy process failed to start'' (Some (launch_failed_comment err))
       (Some (deployKey (origin p))) Standalone s"

subsection \<open>The request handler (lines 347 to 559)\<close>

text \<open>
  A request as the handler sees it: method, the path of its URL, the signature header,
  and how its body stream ends, with the whole body or with an error.
\<close>

datatype body_stream = End string | StreamError string

record request =
  req_method :: string
  pathname :: string
  signature :: "string option"
  stream :: body_stream

text \<open>The \<open>catch\<close> of lines 533 to 552.\<close>

definition best_effort :: "world \<Rightarrow> string \<Rightarrow> jsval \<times> jsval" where
  "best_effort w raw =
     (case json_parse w raw of
        Inl err \<Rightarrow> (Some (JStr ''unknown/unknown''), Some (JStr ''unknown''))
      | Inr event \<Rightarrow>
          if event = JNull then (Some (JStr ''unknown/unknown''), Some (JStr ''unknown''))
          else
            (let full_name =
                   (case js_get event ''repository'' of
                      None \<Rightarrow> None
                    | Some JNull \<Rightarrow> None
                    | Some repository \<Rightarrow> js_get repository ''full_name'')
             in (if truthy full_name then full_name else Some (JStr ''unknown/unknown''),
                 if truthy (js_get event ''after'') then js_get event ''after''
                 else Some (JStr ''unknown''))))"

definition on_exception :: "world \<Rightarrow> config \<Rightarrow> string \<Rightarrow> js_error \<Rightarrow> server \<Rightarrow> coroutine \<times> server" where
  "on_exception w cfg raw err s =
     (case best_effort w raw of (rp, sh) \<Rightarrow>
        reportErrorAndCleanup cfg rp sh ''Webhook internal error''
          (Some (internal_error_comment err)) None Standalone s)"

text \<open>The body of the \<open>try\<close> after the response has been sent (lines 393 to 531).\<close>

definition handle_event :: "world \<Rightarrow> config \<Rightarrow> string \<Rightarrow> server \<Rightarrow> server" where
  "handle_event w cfg raw s =
     (case json_parse w raw of
        Inl err \<Rightarrow> suspend (on_exception w cfg raw err s)
      | Inr event \<Rightarrow>
          (case filter_event w event of
             Inl err \<Rightarrow> suspend (on_exception w cfg raw err s)
           | Inr Ignore \<Rightarrow> s
           | Inr (Deploy d) \<Rightarrow> withDeployLock (deployKey d) (deployFn w cfg d) s))"

definition on_end :: "world \<Rightarrow> config \<Rightarrow> request \<Rightarrow> string \<Rightarrow> server \<Rightarrow> server" where
  "on_end w cfg r raw s =
     (if \<not> verify w cfg (signature r) raw then emit (Respond 401 ''Unauthorized'') s
      else handle_event w cfg raw (emit (Respond 200 ''ok'') s))"

text \<open>
  Lines 349 to 371, the retrieval of a stored log: \<open>GET /repo/hash.txt\<close> when a log
  directory is configured.
\<close>

definition path_parts :: "string \<Rightarrow> string list" where
  "path_parts p = filter (\<lambda>part. part \<noteq> []) (split_on CHR ''/'' p)"

definition is_log_request :: "config \<Rightarrow> request \<Rightarrow> bool" where
  "is_log_request cfg r =
     (req_method r = ''GET'' \<and> is_set (LOG_DIR cfg) \<and> length (path_parts (pathname r)) = 2)"

definition serve_log :: "world \<Rightarrow> config \<Rightarrow> request \<Rightarrow> server \<Rightarrow> server" where
  "serve_log w cfg r s =
     (let logPath = path_join w [the (LOG_DIR cfg), path_parts (pathname r) ! 0,
                                 path_parts (pathname r) ! 1 @ ''.txt'']
      in if is_file w logPath then emit (ServeLog logPath) s
         else emit (Respond 404 ''Log file not found'') s)"

definition handle_request :: "world \<Rightarrow> config \<Rightarrow> request \<Rightarrow> server \<Rightarrow> server" where
  "handle_request w cfg r s =
     (if is_log_request cfg r then serve_log w cfg r s
      else if req_method r \<noteq> ''POST'' then emit (Respond 405 ''Method Not Allowed'') s
      else (case stream r of
              End raw \<Rightarrow> on_end w cfg r raw s
            | StreamError msg \<Rightarrow> emit (Respond 400 ''Bad Request'') s))"

subsection \<open>The event loop\<close>

text \<open>
  One event is one turn of the loop: a request whose body stream has ended, the settling
  of a promise some coroutine awaits, or an event of a deploy process. Coroutines and
  processes are addressed by their position; an event for code that does not wait for it
  changes nothing.
\<close>

datatype event =
    Request request
  | ApiDone nat
  | GitDone nat "js_error + string"
  | MkdirDone nat "js_error option"
  | ProcData nat string
  | ProcClose nat "int option"
  | ProcError nat js_error

definition with_coroutine ::
  "nat \<Rightarrow> (coroutine \<Rightarrow> server \<Rightarrow> coroutine \<times> server) \<Rightarrow> server \<Rightarrow> server" where
  "with_coroutine i f s =
     (if i < length (coroutines s) then
        (case f (coroutines s ! i) s of (c, s') \<Rightarrow> s'\<lparr>coroutines := (coroutines s')[i := c]\<rparr>)
      else s)"

definition with_process :: "nat \<Rightarrow> (process \<Rightarrow> server \<Rightarrow> server) \<Rightarrow> server \<Rightarrow> server" where
  "with_process i f s =
     (if i < length (processes s) \<and> \<not> closed (processes s ! i) then f (processes s ! i) s
      else s)"

fun step :: "world \<Rightarrow> config \<Rightarrow> server \<Rightarrow> event \<Rightarrow> server" where
  "step w cfg s (Request r) = handle_request w cfg r s"
| "step w cfg s (ApiDone i) = with_coroutine i (resume_api cfg) s"
| "step w cfg s (GitDone i res) = with_coroutine i (resume_git w cfg res) s"
| "step w cfg s (MkdirDone i res) = with_coroutine i (resume_mkdir res) s"
| "step w cfg s (ProcData i data) =
     with_process i
       (\<lambda>p s. case saveLines p data s of (p', s') \<Rightarrow> s'\<lparr>processes := (processes s')[i := p']\<rparr>) s"
| "step w cfg s (ProcClose i code) =
     with_process i
       (\<lambda>p s. suspend (on_close cfg p code
                 (s\<lparr>processes := (processes s)[i := p\<lparr>closed := True\<rparr>]\<rparr>))) s"
| "step w cfg s (ProcError i err) = with_process i (\<lambda>p s. suspend (on_error cfg p err s)) s"

definition run :: "world \<Rightarrow> config \<Rightarrow> server \<Rightarrow> event list \<Rightarrow> server" where
  "run w cfg s evs = foldl (step w cfg) s evs"

subsection \<open>Reading a trace\<close>

text \<open>The state and description of every status call, in the order the calls were made.\<close>

fun status_of :: "effect \<Rightarrow> (string \<times> string) list" where
  "status_of (ApiCall meth path (StatusBody state desc context)) = [(state, desc)]"
| "status_of e = []"

definition statuses :: "effect list \<Rightarrow> (string \<times> string) list" where
  "statuses tr = concat (map status_of tr)"

fun comment_of :: "effect \<Rightarrow> string list" where
  "comment_of (ApiCall meth path (CommentBody text)) = [text]"
| "comment_of e = []"

definition comments :: "effect list \<Rightarrow> string list" where
  "comments tr = concat (map comment_of tr)"

fun api_call_of :: "effect \<Rightarrow> effect list" where
  "api_call_of (ApiCall meth path body) = [ApiCall meth path body]"
| "api_call_of e = []"

definition api_calls :: "effect list \<Rightarrow> effect list" where
  "api_calls tr = concat (map api_call_of tr)"

text \<open>The status codes written to HTTP responses; serving a log file writes 200.\<close>

fun response_of :: "effect \<Rightarrow> nat list" where
  "response_of (Respond code text) = [code]"
| "response_of (ServeLog path) = [200]"
| "response_of e = []"

definition responses :: "effect list \<Rightarrow> nat list" where
  "responses tr = concat (map response_of tr)"

text \<open>The command and working directory of every child process started.\<close>

fun spawn_of :: "effect \<Rightarrow> (string \<times> string) list" where
  "spawn_of (Spawn cmd args dir) = [(cmd, dir)]"
| "spawn_of e = []"

definition spawns :: "effect list \<Rightarrow> (string \<times> string) list" where
  "spawns tr = concat (map spawn_of tr)"

text \<open>
  Effects that are neither an HTTP response nor a \<open>pending\<close> status: what the turns
  after a request's first one may add to the trace.
\<close>

definition quiet :: "effect list \<Rightarrow> bool" where
  "quiet tr = (responses tr = [] \<and> ''pending'' \<notin> fst ` set (statuses tr))"

text \<open>
  A server on which nothing but error reports is in flight: no deploy process, and
  every coroutine inside \<open>reportErrorAndCleanup\<close> or finished.
\<close>

fun is_report :: "coroutine \<Rightarrow> bool" where
  "is_report (AwaitReportStatus rp sh body who) = True"
| "is_report (AwaitReportComment who) = True"
| "is_report Finished = True"
| "is_report c = False"

definition reporting :: "server \<Rightarrow> bool" where
  "reporting s = (processes s = [] \<and> list_all is_report (coroutines s))"

text \<open>The part of a reference after its last slash, the whole of it when it has none.\<close>

definition last_segment :: "string \<Rightarrow> string" where
  "last_segment ref = rev (takeWhile (\<lambda>c. c \<noteq> CHR ''/'') (rev ref))"

subsection \<open>A sample installation\<close>

text \<open>
  A server with a secret and a token and no log directory, beside a directory \<open>repos\<close>
  that holds \<open>site\<close> and nothing else, and the requests it is sent below.
\<close>

definition push_main :: string where
  \<open>push_main = ''{"ref":"refs/heads/main","after":"3f2a9c1d5e","deleted":false,"repository":{"full_name":"acme/site","name":"site"}}''\<close>

definition push_fork :: string where
  \<open>push_fork = ''{"ref":"refs/heads/main","after":"77aa00bb11","deleted":false,"repository":{"full_name":"mallory/site","name":"site"}}''\<close>

definition push_ghost :: string where
  \<open>push_ghost = ''{"ref":"refs/heads/main","after":"3f2a9c1d5e","deleted":false,"repository":{"full_name":"acme/ghost","name":"ghost"}}''\<close>

definition push_feature :: string where
  \<open>push_feature = ''{"ref":"refs/heads/feature/x","after":"3f2a9c1d5e","deleted":false,"repository":{"full_name":"acme/site","name":"site"}}''\<close>

definition garbage :: string where
  "garbage = ''not json''"

definition push_event :: "string \<Rightarrow> string \<Rightarrow> string \<Rightarrow> string \<Rightarrow> json" where
  "push_event ref after full_name name =
     JObj [(''ref'', JStr ref), (''after'', JStr after), (''deleted'', JBool False),
           (''repository'', JObj [(''full_name'', JStr full_name), (''name'', JStr name)])]"

definition syntax_error :: js_error where
  "syntax_error =
     JsError ''Unexpected token o in JSON at position 1''
             ''SyntaxError: Unexpected token o in JSON at position 1''"

definition sample_parse :: "string \<Rightarrow> js_error + json" where
  "sample_parse raw =
     (if raw = push_main then Inr (push_event ''refs/heads/main'' ''3f2a9c1d5e'' ''acme/site'' ''site'')
      else if raw = push_fork then Inr (push_event ''refs/heads/main'' ''77aa00bb11'' ''mallory/site'' ''site'')
      else if raw = push_ghost then Inr (push_event ''refs/heads/main'' ''3f2a9c1d5e'' ''acme/ghost'' ''ghost'')
      else if raw = push_feature then Inr (push_event ''refs/heads/feature/x'' ''3f2a9c1d5e'' ''acme/site'' ''site'')
      else if raw = ''null'' then Inr JNull
      else Inl syntax_error)"

text \<open>
  The HMAC of the sample world: HMAC-SHA256 under the key \<open>s3cret\<close> at the four pushes,
  and its value at \<open>garbage\<close> everywhere else.
\<close>

definition sample_hmac :: "string \<Rightarrow> string \<Rightarrow> string" where
  "sample_hmac key raw =
     (if raw = push_main then ''24c809dc61f2f8d524bb6bb46475078ac92e6b0b3426753d178d7047b53964fe''
      else if raw = push_fork then ''3e01820ec48db23185095e1e58baa9494858be633ae7aeeebc163524ebfbe73c''
      else if raw = push_ghost then ''a06d45eebbc574dc55eaff160ee40543b7644b6c8f52f553fdc526856f886ffb''
      else if raw = push_feature then ''489b6ef5daf1268258e1b35beaa7629ce807b2c66d476e10380f6ff98639ef02''
      else ''4b182846723bcbd5b91346e9611da460827b94fdc3a46048f4fcc992ac54f99f'')"

definition sample_thrown :: "fault \<Rightarrow> js_error" where
  "sample_thrown f =
     (case f of
        PropertyOfNull name \<Rightarrow>
          JsError (''Cannot read properties of null (reading '' @ name @ '')'') ''TypeError''
      | NotAFunction name \<Rightarrow> JsError (name @ '' is not a function'') ''TypeError''
      | LengthMismatch \<Rightarrow> JsError ''Input buffers must have the same byte length'' ''RangeError''
      | InvalidPathArgument \<Rightarrow> JsError ''The path argument must be of type string'' ''TypeError'')"

definition sample_world :: world where
  "sample_world =
     \<lparr>hmac_sha256_hex = sample_hmac,
      json_parse = sample_parse,
      thrown = sample_thrown,
      path_join = join ''/'',
      access_ok = (\<lambda>p. p = ''repos/site''),
      is_file = (\<lambda>p. False)\<rparr>"

definition sample_config :: config where
  "sample_config = \<lparr>SECRET = ''s3cret'', TOKEN = Some ''ghp_sample'', LOG_DIR = None\<rparr>"

definition signed :: "string \<Rightarrow> request" where
  "signed raw =
     \<lparr>req_method = ''POST'', pathname = ''/'',
      signature = Some (''sha256='' @ sample_hmac ''s3cret'' raw),
      stream = End raw\<rparr>"

definition sample_deploy :: "string \<Rightarrow> string \<Rightarrow> string \<Rightarrow> deploy" where
  "sample_deploy owner name commit =
     \<lparr>repo = Some (JStr (owner @ ''/'' @ name)), sha = JStr commit, repoName = Some (JStr name),
      deployKey = owner @ ''/'' @ name @ '':main'', cwd = ''repos/'' @ name\<rparr>"

definition sample_run :: "event list \<Rightarrow> server" where
  "sample_run evs = run sample_world sample_config init evs"

section \<open>Properties\<close>

subsection \<open>Strings\<close>

lemma split_on_nonempty: "split_on c s \<noteq> []"
  by (induction s) (auto split: list.splits)

lemma split_on_no_sep: "c \<notin> set s \<Longrightarrow> split_on c s = [s]"
  by (induction s) auto

lemma split_on_sep: "c \<in> set s \<Longrightarrow> tl (split_on c s) \<noteq> []"
  by (induction s) (auto simp: split_on_nonempty split: list.splits)

lemma seg_no_sep: "c \<notin> set xs \<Longrightarrow> takeWhile (\<lambda>a. a \<noteq> c) (rev xs) = rev xs"
  by (rule takeWhile_eq_all_conv [THEN iffD2]) auto

lemma seg_Cons:
  "rev (takeWhile (\<lambda>a. a \<noteq> c) (rev (x # xs))) =
     (if c \<in> set xs then rev (takeWhile (\<lambda>a. a \<noteq> c) (rev xs))
      else if x = c then xs else x # xs)"
proof (cases "c \<in> set xs")
  case True
  then have "takeWhile (\<lambda>a. a \<noteq> c) (rev xs @ [x]) = takeWhile (\<lambda>a. a \<noteq> c) (rev xs)"
    by (intro takeWhile_append1 [of c]) auto
  with True show ?thesis by simp
next
  case False
  then have "takeWhile (\<lambda>a. a \<noteq> c) (rev xs @ [x]) = rev xs @ takeWhile (\<lambda>a. a \<noteq> c) [x]"
    by (intro takeWhile_append2) auto
  with False show ?thesis by simp
qed

lemma last_split_on: "last (split_on c s) = rev (takeWhile (\<lambda>a. a \<noteq> c) (rev s))"
proof (induction s)
  case Nil
  then show ?case by simp
next
  case (Cons x xs)
  show ?case
  proof (cases "c \<in> set xs")
    case True
    then have t: "tl (split_on c xs) \<noteq> []" by (rule split_on_sep)
    then obtain y ys where sp: "split_on c xs = y # ys" "ys \<noteq> []"
      by (cases "split_on c xs") auto
    have "last (split_on c (x # xs)) = last (split_on c xs)"
      using sp by (simp add: split_on_nonempty)
    with Cons True show ?thesis by (simp only: seg_Cons if_True)
  next
    case False
    then have "split_on c xs = [xs]" by (rule split_on_no_sep)
    with False show ?thesis by (simp only: seg_Cons) auto
  qed
qed

lemma branch_is_last_segment: "branch_of ref = last_segment ref"
  by (simp add: branch_of_def last_segment_def last_split_on)

subsection \<open>Rolling buffer\<close>

lemma push_line_bounded:
  "length buf \<le> 50 \<Longrightarrow> length (push_line buf l) \<le> 50"
  by (simp add: push_line_def Let_def)

lemma push_line_drop:
  assumes "length buf \<le> 50"
  shows "push_line buf l = drop (length (buf @ [l]) - 50) (buf @ [l])"
proof (cases "length buf = 50")
  case True
  then have "buf \<noteq> []" by auto
  then obtain x xs where "buf = x # xs" by (cases buf) auto
  with True show ?thesis by (simp add: push_line_def Let_def)
next
  case False
  with assms have "length buf < 50" by simp
  then show ?thesis by (simp add: push_line_def Let_def)
qed

lemma foldl_push_line:
  "length buf \<le> 50 \<Longrightarrow>
   foldl push_line buf xs = drop (length (buf @ xs) - 50) (buf @ xs)"
proof (induction xs arbitrary: buf)
  case Nil
  then show ?case by simp
next
  case (Cons x xs)
  let ?b = "push_line buf x"
  have b: "length ?b \<le> 50" using Cons.prems by (rule push_line_bounded)
  have eq: "?b = drop (length (buf @ [x]) - 50) (buf @ [x])"
    using Cons.prems by (rule push_line_drop)
  have "foldl push_line buf (x # xs) = foldl push_line ?b xs" by simp
  also have "\<dots> = drop (length (?b @ xs) - 50) (?b @ xs)"
    using b by (rule Cons.IH)
  also have "\<dots> = drop (length (buf @ x # xs) - 50) (buf @ x # xs)"
  proof (cases "length buf = 50")
    case True
    then obtain y ys where l: "buf = y # ys" by (cases buf) auto
    with True have "?b = ys @ [x]" by (simp add: push_line_def Let_def)
    with l True show ?thesis by simp
  next
    case False
    with Cons.prems have "length buf < 50" by simp
    then have "?b = buf @ [x]" by (simp add: push_line_def Let_def)
    then show ?thesis by simp
  qed
  finally show ?case .
qed

lemma buffer_after_drop: "buffer_after xs = drop (length xs - 50) xs"
  using foldl_push_line [of "[]" xs] by (simp add: buffer_after_def)

text \<open>
  C8. Whatever buf are appended, after each append (after the first \<open>k\<close> of them, for
  every \<open>k\<close>) the buffer holds at most 50 buf, and they are the most recent ones in
  arrival order; once more than 50 buf have been appended the buffer is exactly the
  last 50 of them.
\<close>

theorem rolling_buffer_keeps_last_50:
  assumes "50 < length appended"
  shows "(\<forall>k \<in> {0..length appended}.
            length (buffer_after (take k appended)) \<le> 50 \<and>
            buffer_after (take k appended) = slice_last 50 (take k appended)) \<and>
         length (buffer_after appended) = 50 \<and>
         buffer_after appended = slice_last 50 appended \<and>
         (\<forall>i < 50. buffer_after appended ! i = appended ! (length appended - 50 + i))"
proof -
  have "\<forall>k \<in> {0..length appended}.
           length (buffer_after (take k appended)) \<le> 50 \<and>
           buffer_after (take k appended) = slice_last 50 (take k appended)"
    by (auto simp add: buffer_after_drop slice_last_def)
  moreover have "length (buffer_after appended) = 50"
    using assms by (simp add: buffer_after_drop)
  moreover have "buffer_after appended = slice_last 50 appended"
    by (simp add: buffer_after_drop slice_last_def)
  moreover have "\<forall>i < 50. buffer_after appended ! i = appended ! (length appended - 50 + i)"
    using assms by (simp add: buffer_after_drop)
  ultimately show ?thesis by blast
qed

theorem rolling_buffer_keeps_last_50_witness:
  "length (buffer_after (map show_nat [0..<60])) = 50"
proof -
  have more: "50 < length (map show_nat [0..<60])" by simp
  from rolling_buffer_keeps_last_50 [OF more] show ?thesis by blast
qed

subsection \<open>Fields of the state after each operation\<close>

lemma emit_fields [simp]:
  "trace (emit e s) = trace s @ [e]"
  "runningDeploys (emit e s) = runningDeploys s"
  "coroutines (emit e s) = coroutines s"
  "processes (emit e s) = processes s"
  by (simp_all add: emit_def)

lemma lock_add_fields [simp]:
  "trace (lock_add k s) = trace s @ [LockAdd k]"
  "runningDeploys (lock_add k s) = insert k (runningDeploys s)"
  "coroutines (lock_add k s) = coroutines s"
  "processes (lock_add k s) = processes s"
  by (simp_all add: lock_add_def)

lemma lock_delete_fields [simp]:
  "trace (lock_delete k s) = trace s @ [LockDelete k]"
  "runningDeploys (lock_delete k s) = runningDeploys s - {k}"
  "coroutines (lock_delete k s) = coroutines s"
  "processes (lock_delete k s) = processes s"
  by (simp_all add: lock_delete_def)

lemma suspend_fields [simp]:
  "trace (suspend (c, s)) = trace s"
  "runningDeploys (suspend (c, s)) = runningDeploys s"
  "coroutines (suspend (c, s)) = coroutines s @ [c]"
  "processes (suspend (c, s)) = processes s"
  by (simp_all add: suspend_def)

lemma callGitHub_fields [simp]:
  "trace (callGitHub cfg m p b s) = trace s @ (if is_set (TOKEN cfg) then [ApiCall m p b] else [])"
  "runningDeploys (callGitHub cfg m p b s) = runningDeploys s"
  "coroutines (callGitHub cfg m p b s) = coroutines s"
  "processes (callGitHub cfg m p b s) = processes s"
  by (simp_all add: callGitHub_def)

lemma setStatus_fields [simp]:
  "trace (setStatus cfg rp sh st desc s) =
     trace s @ (if truthy rp \<and> truthy sh \<and> is_set (TOKEN cfg)
                then [ApiCall ''POST'' (''/repos/'' @ tmpl rp @ ''/statuses/'' @ tmpl sh)
                        (StatusBody st (take 140 desc) ''github-deploy'')]
                else [])"
  "runningDeploys (setStatus cfg rp sh st desc s) = runningDeploys s"
  "coroutines (setStatus cfg rp sh st desc s) = coroutines s"
  "processes (setStatus cfg rp sh st desc s) = processes s"
  by (simp_all add: setStatus_def)

lemma addComment_fields [simp]:
  "trace (addComment cfg rp sh body s) =
     trace s @ (if truthy rp \<and> truthy sh \<and> is_set (TOKEN cfg)
                then [ApiCall ''POST'' (''/repos/'' @ tmpl rp @ ''/commits/'' @ tmpl sh @ ''/comments'')
                        (CommentBody (take 65536 body))]
                else [])"
  "runningDeploys (addComment cfg rp sh body s) = runningDeploys s"
  "coroutines (addComment cfg rp sh body s) = coroutines s"
  "processes (addComment cfg rp sh body s) = processes s"
  by (simp_all add: addComment_def)

lemma filter_event_Deploy:
  assumes "filter_event w event = Inr (Deploy d)"
  shows "\<exists>ref repository.
           js_get event ''ref'' = Some (JStr ref) \<and> ref \<noteq> [] \<and>
           js_get event ''after'' = Some (sha d) \<and> has_slice (sha d) \<and> truthy (Some (sha d)) \<and>
           js_get event ''repository'' = Some repository \<and> truthy (Some repository) \<and>
           \<not> truthy (js_get event ''deleted'') \<and>
           (branch_of ref = ''main'' \<or> branch_of ref = ''master'') \<and>
           repo d = js_get repository ''full_name'' \<and>
           repoName d = js_get repository ''name'' \<and>
           deployKey d = tmpl (js_get repository ''full_name'') @ '':'' @ branch_of ref \<and>
           cwd d = ''repos/'' @ tmpl (js_get repository ''name'')"
  using assms
  by (auto simp: filter_event_def Let_def split: if_splits option.splits json.splits)


lemma reportErrorAndCleanup_fields [simp]:
  "fst (reportErrorAndCleanup cfg rp sh msg body key who s) = AwaitReportStatus rp sh body who"
  "trace (snd (reportErrorAndCleanup cfg rp sh msg body key who s)) =
     trace s @ (if is_set key then [LockDelete (the key)] else []) @
       (if truthy rp \<and> truthy sh \<and> is_set (TOKEN cfg)
        then [ApiCall ''POST'' (''/repos/'' @ tmpl rp @ ''/statuses/'' @ tmpl sh)
                (StatusBody ''error'' (take 140 msg) ''github-deploy'')]
        else [])"
  "runningDeploys (snd (reportErrorAndCleanup cfg rp sh msg body key who s)) =
     (if is_set key then runningDeploys s - {the key} else runningDeploys s)"
  "coroutines (snd (reportErrorAndCleanup cfg rp sh msg body key who s)) = coroutines s"
  "processes (snd (reportErrorAndCleanup cfg rp sh msg body key who s)) = processes s"
  by (simp_all add: reportErrorAndCleanup_def)

lemma suspend_pair: "suspend cs = (snd cs)\<lparr>coroutines := coroutines (snd cs) @ [fst cs]\<rparr>"
  by (cases cs) (simp add: suspend_def)

lemma suspend_fields' [simp]:
  "trace (suspend cs) = trace (snd cs)"
  "runningDeploys (suspend cs) = runningDeploys (snd cs)"
  "coroutines (suspend cs) = coroutines (snd cs) @ [fst cs]"
  "processes (suspend cs) = processes (snd cs)"
  by (simp_all add: suspend_pair)

lemma with_coroutine_fields:
  assumes "i < length (coroutines s)"
  shows "trace (with_coroutine i f s) = trace (snd (f (coroutines s ! i) s))"
    and "runningDeploys (with_coroutine i f s) = runningDeploys (snd (f (coroutines s ! i) s))"
    and "processes (with_coroutine i f s) = processes (snd (f (coroutines s ! i) s))"
    and "coroutines (with_coroutine i f s) =
           (coroutines (snd (f (coroutines s ! i) s)))[i := fst (f (coroutines s ! i) s)]"
  using assms by (simp_all add: with_coroutine_def split: prod.splits)

lemma is_set_key [simp]: "is_set (Some k) = (k \<noteq> [])" "is_set None = False"
  by (simp_all add: is_set_def)

lemma request_accepted:
  assumes "req_method r = ''POST''" and "stream r = End raw"
    and "verify w cfg (signature r) raw"
  shows "handle_request w cfg r s = handle_event w cfg raw (emit (Respond 200 ''ok'') s)"
  using assms by (simp add: handle_request_def is_log_request_def on_end_def)

lemma request_deploy:
  assumes "req_method r = ''POST''" and "stream r = End raw"
    and "verify w cfg (signature r) raw"
    and "json_parse w raw = Inr event" and "filter_event w event = Inr (Deploy d)"
  shows "handle_request w cfg r s =
           withDeployLock (deployKey d) (deployFn w cfg d) (emit (Respond 200 ''ok'') s)"
  using assms by (simp add: request_accepted handle_event_def)

lemma deploy_key_nonempty:
  assumes "filter_event w event = Inr (Deploy d)"
  shows "deployKey d \<noteq> []"
  using filter_event_Deploy [OF assms] by auto

subsection \<open>What the turns after the first may add\<close>

lemma projections_append [simp]:
  "statuses (a @ b) = statuses a @ statuses b"
  "comments (a @ b) = comments a @ comments b"
  "api_calls (a @ b) = api_calls a @ api_calls b"
  "responses (a @ b) = responses a @ responses b"
  "spawns (a @ b) = spawns a @ spawns b"
  by (simp_all add: statuses_def comments_def api_calls_def responses_def spawns_def)

lemma projections_Nil [simp]:
  "statuses [] = []" "comments [] = []" "api_calls [] = []" "responses [] = []" "spawns [] = []"
  by (simp_all add: statuses_def comments_def api_calls_def responses_def spawns_def)

lemma projections_Cons [simp]:
  "statuses (e # tr) = status_of e @ statuses tr"
  "comments (e # tr) = comment_of e @ comments tr"
  "api_calls (e # tr) = api_call_of e @ api_calls tr"
  "responses (e # tr) = response_of e @ responses tr"
  "spawns (e # tr) = spawn_of e @ spawns tr"
  by (simp_all add: statuses_def comments_def api_calls_def responses_def spawns_def)

lemma quiet_simps [simp]:
  "quiet []"
  "quiet (a @ b) = (quiet a \<and> quiet b)"
  "quiet (e # tr) = (response_of e = [] \<and> ''pending'' \<notin> fst ` set (status_of e) \<and> quiet tr)"
  by (auto simp: quiet_def)

lemma saveLine_quiet:
  "\<exists>new. trace (snd (foldl saveLine (p, s) ls)) = trace s @ new \<and> quiet new \<and>
         api_calls new = [] \<and> spawns new = []"
proof (induction ls arbitrary: p s)
  case Nil
  then show ?case by simp
next
  case (Cons l ls)
  obtain p' s' where step: "saveLine (p, s) l = (p', s')" by (cases "saveLine (p, s) l")
  then have "\<exists>new. trace s' = trace s @ new \<and> quiet new \<and> api_calls new = [] \<and> spawns new = []"
    by (auto simp: saveLine_def split: option.splits)
  then obtain n1 where n1: "trace s' = trace s @ n1" "quiet n1" "api_calls n1 = []" "spawns n1 = []"
    by blast
  from Cons.IH [of p' s'] obtain n2 where
    n2: "trace (snd (foldl saveLine (p', s') ls)) = trace s' @ n2" "quiet n2"
        "api_calls n2 = []" "spawns n2 = []"
    by blast
  have "trace (snd (foldl saveLine (p, s) (l # ls))) = trace s @ (n1 @ n2)"
    using step n1 n2 by simp
  moreover have "quiet (n1 @ n2)" "api_calls (n1 @ n2) = []" "spawns (n1 @ n2) = []"
    using n1 n2 by simp_all
  ultimately show ?case by blast
qed

lemma saveLine_other_fields:
  "runningDeploys (snd (foldl saveLine (p, s) ls)) = runningDeploys s \<and>
   coroutines (snd (foldl saveLine (p, s) ls)) = coroutines s \<and>
   processes (snd (foldl saveLine (p, s) ls)) = processes s \<and>
   origin (fst (foldl saveLine (p, s) ls)) = origin p \<and>
   logStream (fst (foldl saveLine (p, s) ls)) = logStream p \<and>
   closed (fst (foldl saveLine (p, s) ls)) = closed p \<and>
   lines (fst (foldl saveLine (p, s) ls)) = foldl push_line (lines p) ls"
  by (induction ls arbitrary: p s) (auto simp: saveLine_def split: option.splits)

lemma resume_api_quiet:
  "\<exists>new. trace (snd (resume_api cfg c s)) = trace s @ new \<and> quiet new"
  by (cases c) (auto simp: resume_api_def return_to_def runGit_def split: option.splits caller.splits)

lemma launch_fields [simp]:
  "fst (launch d lp s) = Finished"
  "trace (snd (launch d lp s)) =
     trace s @ [Spawn ''just'' [JStr ''github-deploy'', sha d] (cwd d), LockDelete (deployKey d)]"
  "runningDeploys (snd (launch d lp s)) = runningDeploys s - {deployKey d}"
  "coroutines (snd (launch d lp s)) = coroutines s"
  "processes (snd (launch d lp s)) =
     processes s @ [\<lparr>origin = d, lines = [], logStream = lp, closed = False\<rparr>]"
  by (simp_all add: launch_def Let_def)

lemma short_descriptions [simp]:
  "take 140 ''Repository directory not found'' = ''Repository directory not found''"
  "take 140 ''Git fetch/checkout failed'' = ''Git fetch/checkout failed''"
  "take 140 ''Deploy process failed to start'' = ''Deploy process failed to start''"
  "take 140 ''Webhook internal error'' = ''Webhook internal error''"
  "take 140 ''Deploy started'' = ''Deploy started''"
  "take 140 ''Deploy complete'' = ''Deploy complete''"
  "take 140 ''Deploy failed'' = ''Deploy failed''"
  by simp_all

lemma resume_git_quiet:
  "\<exists>new. trace (snd (resume_git w cfg res c s)) = trace s @ new \<and> quiet new"
  by (cases c; cases res)
     (auto simp: resume_git_def git_failed_def prepare_launch_def runGit_def Let_def
           split: option.splits json.splits)

lemma resume_mkdir_quiet:
  "\<exists>new. trace (snd (resume_mkdir res c s)) = trace s @ new \<and> quiet new"
  by (cases c; cases res) (auto simp: resume_mkdir_def)

lemma with_coroutine_quiet:
  assumes "\<And>c s. \<exists>new. trace (snd (f c s)) = trace s @ new \<and> quiet new"
  shows "\<exists>new. trace (with_coroutine i f s) = trace s @ new \<and> quiet new"
proof (cases "i < length (coroutines s)")
  case True
  then show ?thesis using assms [of "coroutines s ! i" s]
    by (simp add: with_coroutine_fields)
next
  case False
  then show ?thesis by (simp add: with_coroutine_def)
qed

lemma step_quiet:
  assumes "\<And>r. e \<noteq> Request r"
  shows "\<exists>new. trace (step w cfg s e) = trace s @ new \<and> quiet new"
proof (cases e)
  case (Request r)
  with assms [of r] show ?thesis by blast
next
  case (ApiDone i)
  then show ?thesis by (simp add: with_coroutine_quiet resume_api_quiet)
next
  case (GitDone i res)
  then show ?thesis by (simp add: with_coroutine_quiet resume_git_quiet)
next
  case (MkdirDone i res)
  then show ?thesis by (simp add: with_coroutine_quiet resume_mkdir_quiet)
next
  case (ProcData i data)
  obtain new where "trace (snd (saveLines (processes s ! i) data s)) = trace s @ new" "quiet new"
    using saveLine_quiet [of "processes s ! i" s "chunk_lines data"]
    by (auto simp: saveLines_def)
  with ProcData show ?thesis
    by (auto simp: with_process_def split: prod.splits)
next
  case (ProcClose i code)
  then show ?thesis
    by (auto simp: with_process_def on_close_def Let_def split: option.splits)
next
  case (ProcError i err)
  then show ?thesis
    by (auto simp: with_process_def on_error_def)
qed

lemma run_quiet:
  assumes "\<And>r. Request r \<notin> set evs"
  shows "\<exists>new. trace (run w cfg s evs) = trace s @ new \<and> quiet new"
  using assms
proof (induction evs arbitrary: s)
  case Nil
  then show ?case by (simp add: run_def)
next
  case (Cons e evs)
  then have "\<And>r. e \<noteq> Request r" by auto
  from step_quiet [OF this, of w cfg s]
  obtain n1 where n1: "trace (step w cfg s e) = trace s @ n1" "quiet n1" by blast
  from Cons.IH [of "step w cfg s e"] Cons.prems
  obtain n2 where n2: "trace (run w cfg (step w cfg s e) evs) = trace (step w cfg s e) @ n2" "quiet n2"
    by auto
  have "trace (run w cfg s (e # evs)) = trace s @ (n1 @ n2)"
    using n1 n2 by (simp add: run_def)
  moreover have "quiet (n1 @ n2)" using n1 n2 by simp
  ultimately show ?case by blast
qed

subsection \<open>The sample installation\<close>

lemmas sample_bodies = push_main_def push_fork_def push_ghost_def push_feature_def garbage_def

lemma sample_verify: "verify sample_world sample_config (signature (signed raw)) raw"
  by (simp add: verify_def sample_world_def sample_config_def signed_def
      timingSafeEqual_def expected_signature_def)

lemma sample_parse_ghost:
  "json_parse sample_world push_ghost =
     Inr (push_event ''refs/heads/main'' ''3f2a9c1d5e'' ''acme/ghost'' ''ghost'')"
  by (simp add: sample_world_def sample_parse_def sample_bodies)

lemma branch_main: "branch_of ''refs/heads/main'' = ''main''"
  by (simp add: branch_of_def)

lemma sample_filter:
  "filter_event w (push_event ''refs/heads/main'' commit (owner @ ''/'' @ name) name) =
     (if commit = [] then Inr Ignore else Inr (Deploy (sample_deploy owner name commit)))"
  by (simp add: filter_event_def push_event_def sample_deploy_def branch_main tmpl_def)

lemma sample_fields [simp]:
  "req_method (signed raw) = ''POST''"
  "stream (signed raw) = End raw"
  "is_set (TOKEN sample_config)"
  "LOG_DIR sample_config = None"
  "access_ok sample_world p = (p = ''repos/site'')"
  by (simp_all add: signed_def sample_config_def sample_world_def)

lemma init_fields [simp]:
  "runningDeploys init = {}" "trace init = []" "coroutines init = []" "processes init = []"
  by (simp_all add: init_def)

subsection \<open>A missing repository directory\<close>

text \<open>
  C4, as amended. A push that passes the filter and finds its key free, for a repository
  whose directory \<open>repos/<name>\<close> does not exist: the key is added to \<open>runningDeploys\<close>
  before the directory is checked and deleted again before anything is reported, so
  the set is the same after the request as before it; the one call to the API is the
  \<open>error\<close> status \<open>Repository directory not found\<close>; when that call has settled the
  deploy function returns, and nothing else happens: no comment, no child process.
\<close>

theorem missing_directory:
  assumes "req_method r = ''POST''" and "stream r = End raw"
    and "verify w cfg (signature r) raw"
    and "json_parse w raw = Inr event" and "filter_event w event = Inr (Deploy d)"
    and "deployKey d \<notin> runningDeploys s"
    and "\<not> access_ok w (''repos/'' @ tmpl (repoName d))"
    and "is_set (TOKEN cfg)" and "truthy (repo d)"
  shows "let s1 = step w cfg s (Request r);
             s2 = step w cfg s1 (ApiDone (length (coroutines s)))
         in trace s1 = trace s @
              [Respond 200 ''ok'', LockAdd (deployKey d), LockDelete (deployKey d),
               ApiCall ''POST'' (''/repos/'' @ tmpl (repo d) @ ''/statuses/'' @ js_string (sha d))
                 (StatusBody ''error'' ''Repository directory not found'' ''github-deploy'')] \<and>
            runningDeploys s1 = runningDeploys s \<and>
            processes s1 = processes s \<and>
            coroutines s1 = coroutines s @
              [AwaitReportStatus (repo d) (Some (sha d)) None (FromDeployFn (deployKey d))] \<and>
            trace s2 = trace s1 @ [LockDelete (deployKey d)] \<and>
            processes s2 = processes s \<and>
            coroutines s2 = coroutines s @ [Finished]"
proof -
  from filter_event_Deploy [OF assms(5)]
  have dir: "cwd d = ''repos/'' @ tmpl (repoName d)" and sha: "truthy (Some (sha d))"
    and key: "deployKey d \<noteq> []"
    by auto
  define s1 where "s1 = step w cfg s (Request r)"
  have s1: "s1 = suspend (deployFn w cfg d (lock_add (deployKey d) (emit (Respond 200 ''ok'') s)))"
    unfolding s1_def using assms(6)
    by (simp add: request_deploy [OF assms(1-5)] withDeployLock_def)
  have fn: "deployFn w cfg d s' =
              reportErrorAndCleanup cfg (repo d) (Some (sha d)) ''Repository directory not found''
                None (Some (deployKey d)) (FromDeployFn (deployKey d)) s'" for s'
    using assms(7) dir by (simp add: deployFn_def)
  have t1: "trace s1 = trace s @
              [Respond 200 ''ok'', LockAdd (deployKey d), LockDelete (deployKey d),
               ApiCall ''POST'' (''/repos/'' @ tmpl (repo d) @ ''/statuses/'' @ js_string (sha d))
                 (StatusBody ''error'' ''Repository directory not found'' ''github-deploy'')]"
    using assms(8,9) sha key by (simp add: s1 fn tmpl_def)
  have r1: "runningDeploys s1 = runningDeploys s"
    using assms(6) key by (simp add: s1 fn)
  have p1: "processes s1 = processes s" by (simp add: s1 fn)
  have c1: "coroutines s1 = coroutines s @
              [AwaitReportStatus (repo d) (Some (sha d)) None (FromDeployFn (deployKey d))]"
    by (simp add: s1 fn)
  define s2 where "s2 = step w cfg s1 (ApiDone (length (coroutines s)))"
  have here: "length (coroutines s) < length (coroutines s1)" by (simp add: c1)
  have at: "coroutines s1 ! length (coroutines s) =
              AwaitReportStatus (repo d) (Some (sha d)) None (FromDeployFn (deployKey d))"
    by (simp add: c1)
  have res: "resume_api cfg
               (AwaitReportStatus (repo d) (Some (sha d)) None (FromDeployFn (deployKey d))) s1 =
               (Finished, lock_delete (deployKey d) s1)"
    by (simp add: resume_api_def return_to_def)
  have t2: "trace s2 = trace s1 @ [LockDelete (deployKey d)]"
    unfolding s2_def by (simp add: with_coroutine_fields [OF here] at res)
  have p2: "processes s2 = processes s"
    unfolding s2_def by (simp add: with_coroutine_fields [OF here] at res p1)
  have c2: "coroutines s2 = coroutines s @ [Finished]"
    unfolding s2_def by (simp add: with_coroutine_fields [OF here] at res c1)
  show ?thesis
    using t1 r1 p1 c1 t2 p2 c2 unfolding s1_def s2_def Let_def by blast
qed


theorem missing_directory_witness:
  "let s1 = step sample_world sample_config init (Request (signed push_ghost));
       s2 = step sample_world sample_config s1 (ApiDone 0)
   in runningDeploys s1 = {} \<and>
      trace s2 = trace s1 @ [LockDelete ''acme/ghost:main''] \<and>
      processes s2 = [] \<and> coroutines s2 = [Finished]"
proof -
  let ?d = "sample_deploy ''acme'' ''ghost'' ''3f2a9c1d5e''"
  have filtered: "filter_event sample_world
        (push_event ''refs/heads/main'' ''3f2a9c1d5e'' ''acme/ghost'' ''ghost'') = Inr (Deploy ?d)"
    using sample_filter [of sample_world "''3f2a9c1d5e''" "''acme''" "''ghost''"] by simp
  have free: "deployKey ?d \<notin> runningDeploys init" by simp
  have missing: "\<not> access_ok sample_world (''repos/'' @ tmpl (repoName ?d))"
    by (simp add: sample_deploy_def tmpl_def)
  have named: "truthy (repo ?d)" by (simp add: sample_deploy_def)
  from missing_directory [OF sample_fields(1) sample_fields(2) sample_verify sample_parse_ghost
      filtered free missing sample_fields(3) named]
  show ?thesis by (simp add: Let_def sample_deploy_def)
qed

text \<open>
  The claim as it was made says that the lock is never held on this path. On the sample
  installation, a signed push for \<open>acme/ghost\<close>, whose directory is missing, adds the key
  and deletes it before it reports the error.
\<close>

theorem missing_directory_takes_lock:
  "trace (sample_run [Request (signed push_ghost)]) =
     [Respond 200 ''ok'', LockAdd ''acme/ghost:main'', LockDelete ''acme/ghost:main'',
      ApiCall ''POST'' ''/repos/acme/ghost/statuses/3f2a9c1d5e''
        (StatusBody ''error'' ''Repository directory not found'' ''github-deploy'')]"
  by code_simp

subsection \<open>Signature verification\<close>

text \<open>
  C2. \<open>verify\<close> accepts exactly when no secret is configured or the header is the string
  \<open>sha256=\<close> followed by the hexadecimal HMAC-SHA256 of the body under the secret. With a
  secret, a missing header is refused, and a header of another length makes
  \<open>timingSafeEqual\<close> throw, which \<open>verify\<close> turns into a refusal.
\<close>

theorem verify_iff:
  "verify w cfg sigHeader raw =
     (SECRET cfg = [] \<or> sigHeader = Some (''sha256='' @ hmac_sha256_hex w (SECRET cfg) raw)) \<and>
   verify w cfg None raw = (SECRET cfg = []) \<and>
   (\<forall>h. length h \<noteq> length (''sha256='' @ hmac_sha256_hex w (SECRET cfg) raw) \<longrightarrow>
      timingSafeEqual w (''sha256='' @ hmac_sha256_hex w (SECRET cfg) raw) h =
        Inl (thrown w LengthMismatch) \<and>
      verify w cfg (Some h) raw = (SECRET cfg = []))"
proof -
  have "verify w cfg sigHeader raw =
     (SECRET cfg = [] \<or> sigHeader = Some (''sha256='' @ hmac_sha256_hex w (SECRET cfg) raw))"
    by (cases sigHeader)
       (auto simp: verify_def is_set_def timingSafeEqual_def expected_signature_def)
  moreover have "verify w cfg None raw = (SECRET cfg = [])"
    by (simp add: verify_def)
  moreover have "timingSafeEqual w (''sha256='' @ hmac_sha256_hex w (SECRET cfg) raw) h =
        Inl (thrown w LengthMismatch) \<and>
      verify w cfg (Some h) raw = (SECRET cfg = [])"
    if "length h \<noteq> length (''sha256='' @ hmac_sha256_hex w (SECRET cfg) raw)" for h
    using that by (auto simp: verify_def timingSafeEqual_def expected_signature_def)
  ultimately show ?thesis by blast
qed

theorem verify_iff_witness:
  "verify sample_world sample_config
     (Some ''sha256=24c809dc61f2f8d524bb6bb46475078ac92e6b0b3426753d178d7047b53964fe'') push_main \<and>
   \<not> verify sample_world sample_config None push_main \<and>
   \<not> verify sample_world sample_config (Some ''sha256=24c8'') push_main"
proof -
  have short: "length ''sha256=24c8'' \<noteq>
      length (''sha256='' @ hmac_sha256_hex sample_world (SECRET sample_config) push_main)"
    by (simp add: sample_world_def sample_hmac_def)
  from verify_iff [of sample_world sample_config
      "Some ''sha256=24c809dc61f2f8d524bb6bb46475078ac92e6b0b3426753d178d7047b53964fe''" push_main]
    short
  show ?thesis
    by (simp add: sample_world_def sample_hmac_def sample_config_def)
qed

subsection \<open>What the caller of the webhook is answered\<close>

lemma deployFn_quiet_responses:
  "responses (trace (snd (deployFn w cfg d s))) = responses (trace s)"
  by (simp add: deployFn_def)

lemma best_effort_truthy:
  "truthy (fst (best_effort w raw)) \<and> truthy (snd (best_effort w raw))"
  by (auto simp: best_effort_def Let_def split: sum.splits option.splits json.splits)

lemma on_exception_fields:
  "fst (on_exception w cfg raw err s) =
     AwaitReportStatus (fst (best_effort w raw)) (snd (best_effort w raw))
       (Some (internal_error_comment err)) Standalone"
  "trace (snd (on_exception w cfg raw err s)) =
     trace s @ (if is_set (TOKEN cfg)
                then [ApiCall ''POST''
                        (''/repos/'' @ tmpl (fst (best_effort w raw)) @ ''/statuses/'' @
                         tmpl (snd (best_effort w raw)))
                        (StatusBody ''error'' ''Webhook internal error'' ''github-deploy'')]
                else [])"
  "runningDeploys (snd (on_exception w cfg raw err s)) = runningDeploys s"
  "coroutines (snd (on_exception w cfg raw err s)) = coroutines s"
  "processes (snd (on_exception w cfg raw err s)) = processes s"
  using best_effort_truthy [of w raw]
  by (auto simp: on_exception_def split: prod.splits)

lemma handle_event_responses:
  "responses (trace (handle_event w cfg raw s)) = responses (trace s)"
  by (auto simp: handle_event_def on_exception_fields withDeployLock_def deployFn_def
           split: sum.splits decision.splits)

text \<open>
  C6, as amended. A request that is not the retrieval of a log is answered exactly once,
  in the turn that handles it: 405 when its method is not \<open>POST\<close>; 400 when its body stream
  reports an error; 401 when the signature is refused; 200 otherwise. No later turn
  writes a response.
\<close>

theorem response_codes:
  assumes "\<not> is_log_request cfg r"
  shows "responses (trace (step w cfg s (Request r))) =
           responses (trace s) @
             [if req_method r \<noteq> ''POST'' then 405
              else (case stream r of
                      StreamError msg \<Rightarrow> 400
                    | End raw \<Rightarrow> if verify w cfg (signature r) raw then 200 else 401)] \<and>
         (\<forall>evs. (\<forall>r'. Request r' \<notin> set evs) \<longrightarrow>
            responses (trace (run w cfg (step w cfg s (Request r)) evs)) =
            responses (trace (step w cfg s (Request r))))"
proof -
  have first: "responses (trace (step w cfg s (Request r))) =
           responses (trace s) @
             [if req_method r \<noteq> ''POST'' then 405
              else (case stream r of
                      StreamError msg \<Rightarrow> 400
                    | End raw \<Rightarrow> if verify w cfg (signature r) raw then 200 else 401)]"
    using assms
    by (simp add: handle_request_def on_end_def handle_event_responses split: body_stream.splits)
  have later: "responses (trace (run w cfg s' evs)) = responses (trace s')"
    if "\<forall>r'. Request r' \<notin> set evs" for evs s'
  proof -
    from that have "\<And>r'. Request r' \<notin> set evs" by blast
    from run_quiet [OF this, of w cfg s']
    show ?thesis by (auto simp: quiet_def)
  qed
  from first later show ?thesis by blast
qed

theorem response_codes_witness:
  "responses (trace (step sample_world sample_config init (Request (signed push_feature)))) = [200]"
proof -
  have post: "\<not> is_log_request sample_config (signed push_feature)"
    by (simp add: is_log_request_def)
  from response_codes [OF post, of sample_world init]
  show ?thesis by (simp add: sample_verify)
qed

text \<open>
  The claim as it was made allows 200, 401 and 405 only. A \<open>POST\<close> whose body stream
  fails is answered 400 by the handler of lines 556 to 559.
\<close>

theorem stream_error_answers_400:
  "responses (trace (sample_run
      [Request \<lparr>req_method = ''POST'', pathname = ''/'', signature = None,
                stream = StreamError ''aborted''\<rparr>])) = [400]"
  by code_simp

subsection \<open>Errors before the deploy starts\<close>

lemma comment_is_set [simp]:
  "internal_error_comment err \<noteq> []" "git_failed_comment err \<noteq> []"
  "launch_failed_comment err \<noteq> []" "deploy_failed_comment code buf \<noteq> []"
  by (simp_all add: internal_error_comment_def git_failed_comment_def launch_failed_comment_def
      deploy_failed_comment_def siren_def)

text \<open>
  C5, as amended. When the body of an accepted request does not parse, or the code
  between the parse and the lock throws, the \<open>catch\<close> of line 533 takes over. It reads
  the repository and the commit from the body once more and falls back on
  \<open>unknown/unknown\<close> and \<open>unknown\<close>; with an unparsable body both are the placeholders.
  Either way both values are truthy, so the status reporter does not return early: it
  sends the \<open>error\<close> status \<open>Webhook internal error\<close> and then the comment, addressed to
  whatever repository and commit were found, whenever a token is configured, and
  nothing only when no token is. The set of running deploys is not touched.
\<close>

theorem internal_error_reported:
  assumes "req_method r = ''POST''" and "stream r = End raw"
    and "verify w cfg (signature r) raw"
    and "json_parse w raw = Inl err \<or>
         (\<exists>event. json_parse w raw = Inr event \<and> filter_event w event = Inl err)"
  shows "let rp = fst (best_effort w raw); sh = snd (best_effort w raw);
             s1 = step w cfg s (Request r);
             s2 = step w cfg s1 (ApiDone (length (coroutines s)))
         in truthy rp \<and> truthy sh \<and>
            (json_parse w raw = Inl err \<longrightarrow>
               rp = Some (JStr ''unknown/unknown'') \<and> sh = Some (JStr ''unknown'')) \<and>
            (\<forall>fields repository.
               json_parse w raw = Inr (JObj fields) \<and>
               map_of fields ''repository'' = Some (JObj repository) \<and>
               truthy (map_of repository ''full_name'') \<and> truthy (map_of fields ''after'') \<longrightarrow>
               rp = map_of repository ''full_name'' \<and> sh = map_of fields ''after'') \<and>
            trace s1 = trace s @ Respond 200 ''ok'' #
              (if is_set (TOKEN cfg)
               then [ApiCall ''POST'' (''/repos/'' @ tmpl rp @ ''/statuses/'' @ tmpl sh)
                       (StatusBody ''error'' ''Webhook internal error'' ''github-deploy'')]
               else []) \<and>
            trace s2 = trace s1 @
              (if is_set (TOKEN cfg)
               then [ApiCall ''POST'' (''/repos/'' @ tmpl rp @ ''/commits/'' @ tmpl sh @ ''/comments'')
                       (CommentBody (take 65536 (internal_error_comment err)))]
               else []) \<and>
            runningDeploys s2 = runningDeploys s \<and> processes s2 = processes s \<and>
            coroutines s2 = coroutines s @ [AwaitReportComment Standalone]"
proof -
  define rp where "rp = fst (best_effort w raw)"
  define sh where "sh = snd (best_effort w raw)"
  define s0 where "s0 = emit (Respond 200 ''ok'') s"
  define s1 where "s1 = step w cfg s (Request r)"
  define s2 where "s2 = step w cfg s1 (ApiDone (length (coroutines s)))"
  have tr: "truthy rp" "truthy sh"
    using best_effort_truthy [of w raw] by (simp_all add: rp_def sh_def)
  have s1: "s1 = suspend (on_exception w cfg raw err s0)"
    unfolding s1_def s0_def using assms(4)
    by (auto simp: request_accepted [OF assms(1-3)] handle_event_def)
  have placeholders: "rp = Some (JStr ''unknown/unknown'') \<and> sh = Some (JStr ''unknown'')"
    if "json_parse w raw = Inl err"
    using that by (simp add: rp_def sh_def best_effort_def)
  have extracted: "rp = map_of repository ''full_name'' \<and> sh = map_of fields ''after''"
    if "json_parse w raw = Inr (JObj fields)"
      and "map_of fields ''repository'' = Some (JObj repository)"
      and "truthy (map_of repository ''full_name'')" and "truthy (map_of fields ''after'')"
    for fields repository
    using that by (simp add: rp_def sh_def best_effort_def)
  have t1: "trace s1 = trace s @ Respond 200 ''ok'' #
              (if is_set (TOKEN cfg)
               then [ApiCall ''POST'' (''/repos/'' @ tmpl rp @ ''/statuses/'' @ tmpl sh)
                       (StatusBody ''error'' ''Webhook internal error'' ''github-deploy'')]
               else [])"
    by (simp add: s1 on_exception_fields s0_def rp_def sh_def)
  have c1: "coroutines s1 = coroutines s @
              [AwaitReportStatus rp sh (Some (internal_error_comment err)) Standalone]"
    by (simp add: s1 on_exception_fields s0_def rp_def sh_def)
  have r1: "runningDeploys s1 = runningDeploys s" "processes s1 = processes s"
    by (simp_all add: s1 on_exception_fields s0_def)
  have here: "length (coroutines s) < length (coroutines s1)" by (simp add: c1)
  have at: "coroutines s1 ! length (coroutines s) =
              AwaitReportStatus rp sh (Some (internal_error_comment err)) Standalone"
    by (simp add: c1)
  have res: "resume_api cfg (AwaitReportStatus rp sh (Some (internal_error_comment err)) Standalone) s1 =
               (AwaitReportComment Standalone, addComment cfg rp sh (internal_error_comment err) s1)"
    by (simp add: resume_api_def)
  have t2: "trace s2 = trace s1 @
              (if is_set (TOKEN cfg)
               then [ApiCall ''POST'' (''/repos/'' @ tmpl rp @ ''/commits/'' @ tmpl sh @ ''/comments'')
                       (CommentBody (take 65536 (internal_error_comment err)))]
               else [])"
    unfolding s2_def using tr by (simp add: with_coroutine_fields [OF here] at res)
  have r2: "runningDeploys s2 = runningDeploys s" "processes s2 = processes s"
    unfolding s2_def by (simp_all add: with_coroutine_fields [OF here] at res r1)
  have c2: "coroutines s2 = coroutines s @ [AwaitReportComment Standalone]"
    unfolding s2_def by (simp add: with_coroutine_fields [OF here] at res c1)
  show ?thesis
    using tr placeholders extracted t1 t2 r2 c2
    unfolding Let_def rp_def sh_def s1_def s2_def by blast
qed

theorem internal_error_reported_witness:
  "api_calls (trace (step sample_world sample_config init (Request (signed garbage)))) =
     [ApiCall ''POST'' ''/repos/unknown/unknown/statuses/unknown''
        (StatusBody ''error'' ''Webhook internal error'' ''github-deploy'')]"
proof -
  have unparsable: "json_parse sample_world garbage = Inl syntax_error \<or>
      (\<exists>event. json_parse sample_world garbage = Inr event \<and>
               filter_event sample_world event = Inl syntax_error)"
    by (simp add: sample_world_def sample_parse_def sample_bodies)
  have fallback: "best_effort sample_world garbage =
      (Some (JStr ''unknown/unknown''), Some (JStr ''unknown''))"
    by (simp add: best_effort_def sample_world_def sample_parse_def sample_bodies)
  from internal_error_reported [OF sample_fields(1) sample_fields(2) sample_verify unparsable,
      of init]
  show ?thesis by (simp add: Let_def fallback tmpl_def)
qed

text \<open>
  The claim as it was made says that the placeholders make the reporter do nothing. On
  the sample installation, which has a token, a signed body that is not JSON leads to a
  call for the repository \<open>unknown/unknown\<close>.
\<close>

theorem placeholders_reach_api:
  "json_parse sample_world garbage = Inl syntax_error \<and>
   api_calls (trace (sample_run [Request (signed garbage)])) =
     [ApiCall ''POST'' ''/repos/unknown/unknown/statuses/unknown''
        (StatusBody ''error'' ''Webhook internal error'' ''github-deploy'')]"
  by code_simp

subsection \<open>The event filter\<close>





subsection \<open>Deploy key and working directory\<close>

lemma key_determines_name:
  assumes "b1 = ''main'' \<or> b1 = ''master''" and "b2 = ''main'' \<or> b2 = ''master''"
    and "f1 @ '':'' @ b1 = f2 @ '':'' @ b2"
  shows "f1 = f2"
proof -
  from assms(3) have "rev b1 @ '':'' @ rev f1 = rev b2 @ '':'' @ rev f2"
    by (metis append_assoc rev_append rev_singleton_conv rev_rev_ident)
  with assms(1,2) show ?thesis by auto
qed

text \<open>
  C10. For every event that passes the filter, the working directory of the deploy is
  \<open>repos/\<close> followed by the short name \<open>repository.name\<close>, and that is where \<open>just\<close> is
  spawned, while the key is \<open>repository.full_name\<close>, a colon and the branch. Two such
  events with the same short name and different full names therefore have the same
  directory and different keys: the second takes its lock while the first holds its own,
  and its deploy starts in the same directory.
\<close>

theorem key_and_directory:
  assumes "filter_event w e1 = Inr (Deploy d1)" and "filter_event w e2 = Inr (Deploy d2)"
    and "tmpl (repoName d1) = tmpl (repoName d2)" and "tmpl (repo d1) \<noteq> tmpl (repo d2)"
  shows "(\<exists>repository. js_get e1 ''repository'' = Some repository \<and>
            repo d1 = js_get repository ''full_name'' \<and>
            repoName d1 = js_get repository ''name'') \<and>
         (\<exists>ref. js_get e1 ''ref'' = Some (JStr ref) \<and>
            deployKey d1 = tmpl (repo d1) @ '':'' @ last_segment ref) \<and>
         cwd d1 = ''repos/'' @ tmpl (repoName d1) \<and>
         (\<forall>logPath s. spawns (trace (snd (launch d1 logPath s))) =
            spawns (trace s) @ [(''just'', ''repos/'' @ tmpl (repoName d1))]) \<and>
         cwd d2 = cwd d1 \<and> deployKey d2 \<noteq> deployKey d1 \<and>
         (\<forall>s. deployKey d1 \<in> runningDeploys s \<and> deployKey d2 \<notin> runningDeploys s \<and>
              access_ok w (cwd d1) \<longrightarrow>
            (let s' = withDeployLock (deployKey d2) (deployFn w cfg d2) s
             in deployKey d1 \<in> runningDeploys s' \<and> deployKey d2 \<in> runningDeploys s' \<and>
                coroutines s' = coroutines s @ [AwaitPending d2]))"
proof -
  from filter_event_Deploy [OF assms(1)] obtain ref1 rep1 where
    one: "js_get e1 ''ref'' = Some (JStr ref1)" "js_get e1 ''repository'' = Some rep1"
      "branch_of ref1 = ''main'' \<or> branch_of ref1 = ''master''"
      "repo d1 = js_get rep1 ''full_name''" "repoName d1 = js_get rep1 ''name''"
      "deployKey d1 = tmpl (js_get rep1 ''full_name'') @ '':'' @ branch_of ref1"
      "cwd d1 = ''repos/'' @ tmpl (js_get rep1 ''name'')"
    by blast
  from filter_event_Deploy [OF assms(2)] obtain ref2 rep2 where
    two: "js_get e2 ''ref'' = Some (JStr ref2)" "js_get e2 ''repository'' = Some rep2"
      "branch_of ref2 = ''main'' \<or> branch_of ref2 = ''master''"
      "repo d2 = js_get rep2 ''full_name''" "repoName d2 = js_get rep2 ''name''"
      "deployKey d2 = tmpl (js_get rep2 ''full_name'') @ '':'' @ branch_of ref2"
      "cwd d2 = ''repos/'' @ tmpl (js_get rep2 ''name'')"
    by blast
  have dir1: "cwd d1 = ''repos/'' @ tmpl (repoName d1)" using one by simp
  have same: "cwd d2 = cwd d1" using one two assms(3) by simp
  have differ: "deployKey d2 \<noteq> deployKey d1"
  proof
    assume "deployKey d2 = deployKey d1"
    then have "tmpl (repo d2) @ '':'' @ branch_of ref2 = tmpl (repo d1) @ '':'' @ branch_of ref1"
      using one two by simp
    from key_determines_name [OF two(3) one(3) this] assms(4) show False by simp
  qed
  have key1: "\<exists>ref. js_get e1 ''ref'' = Some (JStr ref) \<and>
            deployKey d1 = tmpl (repo d1) @ '':'' @ last_segment ref"
    using one by (simp add: branch_is_last_segment)
  have rep: "\<exists>repository. js_get e1 ''repository'' = Some repository \<and>
            repo d1 = js_get repository ''full_name'' \<and>
            repoName d1 = js_get repository ''name''"
    using one by simp
  have spawn: "spawns (trace (snd (launch d1 logPath s))) =
            spawns (trace s) @ [(''just'', ''repos/'' @ tmpl (repoName d1))]" for logPath s
    using dir1 by simp
  have both: "let s' = withDeployLock (deployKey d2) (deployFn w cfg d2) s
             in deployKey d1 \<in> runningDeploys s' \<and> deployKey d2 \<in> runningDeploys s' \<and>
                coroutines s' = coroutines s @ [AwaitPending d2]"
    if "deployKey d1 \<in> runningDeploys s \<and> deployKey d2 \<notin> runningDeploys s \<and>
        access_ok w (cwd d1)" for s
    using that same by (simp add: withDeployLock_def deployFn_def Let_def)
  show ?thesis
    using rep key1 dir1 spawn same differ both by blast
qed

theorem key_and_directory_witness:
  "deployKey (sample_deploy ''mallory'' ''site'' ''77aa00bb11'') \<noteq>
     deployKey (sample_deploy ''acme'' ''site'' ''3f2a9c1d5e'') \<and>
   cwd (sample_deploy ''mallory'' ''site'' ''77aa00bb11'') =
     cwd (sample_deploy ''acme'' ''site'' ''3f2a9c1d5e'') \<and>
   runningDeploys (sample_run [Request (signed push_main), Request (signed push_fork)]) =
     {''acme/site:main'', ''mallory/site:main''} \<and>
   map (\<lambda>p. (cwd (origin p), closed p))
     (processes (sample_run
        [Request (signed push_main), Request (signed push_fork), ApiDone 0, ApiDone 1,
         GitDone 0 (Inr []), GitDone 1 (Inr []), GitDone 0 (Inr []), GitDone 1 (Inr [])])) =
     [(''repos/site'', False), (''repos/site'', False)]"
proof -
  let ?one = "sample_deploy ''acme'' ''site'' ''3f2a9c1d5e''"
  let ?two = "sample_deploy ''mallory'' ''site'' ''77aa00bb11''"
  have f1: "filter_event sample_world
      (push_event ''refs/heads/main'' ''3f2a9c1d5e'' ''acme/site'' ''site'') = Inr (Deploy ?one)"
    using sample_filter [of sample_world "''3f2a9c1d5e''" "''acme''" "''site''"] by simp
  have f2: "filter_event sample_world
      (push_event ''refs/heads/main'' ''77aa00bb11'' ''mallory/site'' ''site'') = Inr (Deploy ?two)"
    using sample_filter [of sample_world "''77aa00bb11''" "''mallory''" "''site''"] by simp
  have name: "tmpl (repoName ?one) = tmpl (repoName ?two)"
    by (simp add: sample_deploy_def)
  have owner: "tmpl (repo ?one) \<noteq> tmpl (repo ?two)"
    by (simp add: sample_deploy_def tmpl_def)
  have locks: "runningDeploys (sample_run [Request (signed push_main), Request (signed push_fork)]) =
     {''acme/site:main'', ''mallory/site:main''}"
    by code_simp
  have running: "map (\<lambda>p. (cwd (origin p), closed p))
     (processes (sample_run
        [Request (signed push_main), Request (signed push_fork), ApiDone 0, ApiDone 1,
         GitDone 0 (Inr []), GitDone 1 (Inr []), GitDone 0 (Inr []), GitDone 1 (Inr [])])) =
     [(''repos/site'', False), (''repos/site'', False)]"
    by code_simp
  from key_and_directory [OF f1 f2 name owner, of sample_config] locks running
  show ?thesis by blast
qed

subsection \<open>How a deploy process ends\<close>

lemma run_simps [simp]:
  "run w cfg s [] = s"
  "run w cfg s (e # evs) = run w cfg (step w cfg s e) evs"
  by (simp_all add: run_def)

lemma tmpl_Some [simp]: "tmpl (Some v) = js_string v"
  by (simp add: tmpl_def)

lemma resume_api_simps [simp]:
  "resume_api cfg (AwaitPending d) s =
     (AwaitFetch d, runGit [JStr ''fetch'', JStr ''origin'', sha d] (cwd d) s)"
  "resume_api cfg (AwaitReportStatus rp sh body who) s =
     (if is_set body then (AwaitReportComment who, addComment cfg rp sh (the body) s)
      else (Finished, return_to who s))"
  "resume_api cfg (AwaitReportComment who) s = (Finished, return_to who s)"
  "resume_api cfg (AwaitCloseStatus rp sh None) s = (Finished, s)"
  "resume_api cfg (AwaitCloseStatus rp sh (Some text)) s =
     (AwaitCloseComment, addComment cfg rp sh text s)"
  "resume_api cfg AwaitCloseComment s = (Finished, s)"
  "resume_api cfg Finished s = (Finished, s)"
  "resume_api cfg (AwaitFetch d) s = (AwaitFetch d, s)"
  "resume_api cfg (AwaitCheckout d) s = (AwaitCheckout d, s)"
  "resume_api cfg (AwaitMkdir d logPath) s = (AwaitMkdir d logPath, s)"
  by (simp_all add: resume_api_def)

lemma return_to_simps [simp]:
  "return_to Standalone s = s"
  "return_to (FromDeployFn k) s = lock_delete k s"
  by (simp_all add: return_to_def)

lemma run_append: "run w cfg s (a @ b) = run w cfg (run w cfg s a) b"
  by (simp add: run_def)

lemma resume_fresh:
  assumes "coroutines s1 = cs @ [c]"
  shows "trace (with_coroutine (length cs) f s1) = trace (snd (f c s1))"
    and "runningDeploys (with_coroutine (length cs) f s1) = runningDeploys (snd (f c s1))"
    and "processes (with_coroutine (length cs) f s1) = processes (snd (f c s1))"
    and "coroutines (with_coroutine (length cs) f s1) =
           (coroutines (snd (f c s1)))[length cs := fst (f c s1)]"
proof -
  have here: "length cs < length (coroutines s1)" and at: "coroutines s1 ! length cs = c"
    using assms by simp_all
  show "trace (with_coroutine (length cs) f s1) = trace (snd (f c s1))"
    and "runningDeploys (with_coroutine (length cs) f s1) = runningDeploys (snd (f c s1))"
    and "processes (with_coroutine (length cs) f s1) = processes (snd (f c s1))"
    and "coroutines (with_coroutine (length cs) f s1) =
           (coroutines (snd (f c s1)))[length cs := fst (f c s1)]"
    using with_coroutine_fields [OF here, of f] at by simp_all
qed





subsection \<open>The order of the statuses of one deploy\<close>

lemma resume_git_report:
  "is_report c \<Longrightarrow> resume_git w cfg res c s = (c, s)"
  by (cases c) (simp_all add: resume_git_def)

lemma resume_mkdir_report:
  "is_report c \<Longrightarrow> resume_mkdir res c s = (c, s)"
  by (cases c) (simp_all add: resume_mkdir_def)

lemma resume_api_report:
  assumes "is_report c"
  shows "is_report (fst (resume_api cfg c s)) \<and>
         statuses (trace (snd (resume_api cfg c s))) = statuses (trace s) \<and>
         processes (snd (resume_api cfg c s)) = processes s \<and>
         coroutines (snd (resume_api cfg c s)) = coroutines s"
proof (cases c)
  case (AwaitReportStatus rp sh body who)
  then show ?thesis by (cases who) simp_all
next
  case (AwaitReportComment who)
  then show ?thesis by (cases who) simp_all
qed (use assms in simp_all)

lemma list_all_update:
  "list_all P xs \<Longrightarrow> P x \<Longrightarrow> list_all P (xs[i := x])"
  by (auto simp: list_all_iff dest: set_update_subset_insert [THEN subsetD])

lemma reporting_step:
  assumes "reporting s" and "\<And>r. e \<noteq> Request r"
  shows "reporting (step w cfg s e) \<and> statuses (trace (step w cfg s e)) = statuses (trace s)"
proof (cases e)
  case (Request r)
  with assms(2) [of r] show ?thesis by blast
next
  case (ApiDone i)
  show ?thesis
  proof (cases "i < length (coroutines s)")
    case True
    with assms(1) have "is_report (coroutines s ! i)"
      by (simp add: reporting_def list_all_length)
    from resume_api_report [OF this, of cfg s] assms(1) True ApiDone show ?thesis
      by (simp add: reporting_def with_coroutine_fields list_all_update)
  next
    case False
    with assms(1) ApiDone show ?thesis by (simp add: with_coroutine_def)
  qed
next
  case (GitDone i res)
  show ?thesis
  proof (cases "i < length (coroutines s)")
    case True
    with assms(1) have "is_report (coroutines s ! i)"
      by (simp add: reporting_def list_all_length)
    with assms(1) GitDone show ?thesis
      by (simp add: with_coroutine_def resume_git_report)
  next
    case False
    with assms(1) GitDone show ?thesis by (simp add: with_coroutine_def)
  qed
next
  case (MkdirDone i res)
  show ?thesis
  proof (cases "i < length (coroutines s)")
    case True
    with assms(1) have "is_report (coroutines s ! i)"
      by (simp add: reporting_def list_all_length)
    with assms(1) MkdirDone show ?thesis
      by (simp add: with_coroutine_def resume_mkdir_report)
  next
    case False
    with assms(1) MkdirDone show ?thesis by (simp add: with_coroutine_def)
  qed
next
  case (ProcData i data)
  with assms(1) show ?thesis by (simp add: with_process_def reporting_def)
next
  case (ProcClose i code)
  with assms(1) show ?thesis by (simp add: with_process_def reporting_def)
next
  case (ProcError i err)
  with assms(1) show ?thesis by (simp add: with_process_def reporting_def)
qed

lemma reporting_run:
  assumes "reporting s" and "\<And>r. Request r \<notin> set evs"
  shows "statuses (trace (run w cfg s evs)) = statuses (trace s)"
  using assms
proof (induction evs arbitrary: s)
  case Nil
  then show ?case by simp
next
  case (Cons e evs)
  then have "\<And>r. e \<noteq> Request r" by auto
  from reporting_step [OF Cons.prems(1) this, of w cfg]
  have "reporting (step w cfg s e)"
    and same: "statuses (trace (step w cfg s e)) = statuses (trace s)" by simp_all
  from Cons.IH [OF this(1)] Cons.prems(2) same show ?case by simp
qed


lemma resume_only:
  assumes "coroutines s1 = [c]"
  shows "trace (with_coroutine 0 f s1) = trace (snd (f c s1))"
    and "runningDeploys (with_coroutine 0 f s1) = runningDeploys (snd (f c s1))"
    and "processes (with_coroutine 0 f s1) = processes (snd (f c s1))"
    and "coroutines (with_coroutine 0 f s1) = (coroutines (snd (f c s1)))[0 := fst (f c s1)]"
  using resume_fresh [of s1 "[]" c f] assms by simp_all

lemma git_failed_fields [simp]:
  "fst (git_failed cfg d err s) =
     AwaitReportStatus (repo d) (Some (sha d)) (Some (git_failed_comment err))
       (FromDeployFn (deployKey d))"
  "statuses (trace (snd (git_failed cfg d err s))) =
     statuses (trace s) @
       (if truthy (repo d) \<and> truthy (Some (sha d)) \<and> is_set (TOKEN cfg)
        then [(''error'', ''Git fetch/checkout failed'')] else [])"
  "coroutines (snd (git_failed cfg d err s)) = coroutines s"
  "processes (snd (git_failed cfg d err s)) = processes s"
  by (simp_all add: git_failed_def)

lemma first_turn:
  assumes "req_method r = ''POST''" and "stream r = End raw"
    and "verify w cfg (signature r) raw"
    and "json_parse w raw = Inr event" and "filter_event w event = Inr (Deploy d)"
    and "is_set (TOKEN cfg)" and "truthy (repo d)"
  shows "statuses (trace (step w cfg init (Request r))) =
           (if access_ok w (cwd d) then [(''pending'', ''Deploy started'')]
            else [(''error'', ''Repository directory not found'')])"
    and "coroutines (step w cfg init (Request r)) =
           (if access_ok w (cwd d) then [AwaitPending d]
            else [AwaitReportStatus (repo d) (Some (sha d)) None (FromDeployFn (deployKey d))])"
    and "processes (step w cfg init (Request r)) = []"
proof -
  from filter_event_Deploy [OF assms(5)] have sha: "truthy (Some (sha d))" by auto
  have s1: "handle_request w cfg r init =
      suspend (deployFn w cfg d (lock_add (deployKey d) (emit (Respond 200 ''ok'') init)))"
    by (simp add: request_deploy [OF assms(1-5)] withDeployLock_def)
  show "statuses (trace (step w cfg init (Request r))) =
           (if access_ok w (cwd d) then [(''pending'', ''Deploy started'')]
            else [(''error'', ''Repository directory not found'')])"
    using assms(6,7) sha by (simp add: s1 deployFn_def deploy_key_nonempty [OF assms(5)])
  show "coroutines (step w cfg init (Request r)) =
           (if access_ok w (cwd d) then [AwaitPending d]
            else [AwaitReportStatus (repo d) (Some (sha d)) None (FromDeployFn (deployKey d))])"
    by (simp add: s1 deployFn_def)
  show "processes (step w cfg init (Request r)) = []"
    by (simp add: s1 deployFn_def)
qed

text \<open>
  C3, as amended. One push that passes the filter, on a server that has just started
  and has a token, followed by any events that are not further requests. When the
  repository directory is missing, the one status ever reported is the \<open>error\<close>
  \<open>Repository directory not found\<close>, and \<open>pending\<close> is never reported. When the directory
  exists, \<open>pending\<close> is reported first, in the turn of the request and hence before the
  fetch is started; when the fetch or the checkout then fails, the statuses reported are
  \<open>pending\<close> followed by one \<open>error\<close> \<open>Git fetch/checkout failed\<close>, whatever happens
  afterwards. In every deploy that reports \<open>pending\<close> it is the first status, and no
  second \<open>pending\<close> follows.
\<close>

theorem pending_precedes_terminal:
  assumes "req_method r = ''POST''" and "stream r = End raw"
    and "verify w cfg (signature r) raw"
    and "json_parse w raw = Inr event" and "filter_event w event = Inr (Deploy d)"
    and "is_set (TOKEN cfg)" and "truthy (repo d)"
    and "\<forall>r'. Request r' \<notin> set evs"
  shows "(\<not> access_ok w (cwd d) \<longrightarrow>
            statuses (trace (run w cfg init (Request r # evs))) =
              [(''error'', ''Repository directory not found'')]) \<and>
         (access_ok w (cwd d) \<longrightarrow>
            (\<forall>err. statuses (trace (run w cfg init
                       (Request r # ApiDone 0 # GitDone 0 (Inl err) # evs))) =
               [(''pending'', ''Deploy started''), (''error'', ''Git fetch/checkout failed'')]) \<and>
            (\<forall>out err. statuses (trace (run w cfg init
                       (Request r # ApiDone 0 # GitDone 0 (Inr out) # GitDone 0 (Inl err) # evs))) =
               [(''pending'', ''Deploy started''), (''error'', ''Git fetch/checkout failed'')]) \<and>
            (\<exists>rest. statuses (trace (run w cfg init (Request r # evs))) =
                      (''pending'', ''Deploy started'') # rest \<and>
                    ''pending'' \<notin> fst ` set rest))"
proof -
  from filter_event_Deploy [OF assms(5)] have sha: "truthy (Some (sha d))" by auto
  from assms(8) have later: "\<And>r'. Request r' \<notin> set evs" by blast
  define s1 where "s1 = step w cfg init (Request r)"
  note first = first_turn [OF assms(1-7), folded s1_def]
  have missing: "statuses (trace (run w cfg init (Request r # evs))) =
      [(''error'', ''Repository directory not found'')]"
    if "\<not> access_ok w (cwd d)"
  proof -
    have "reporting s1" using first that by (simp add: reporting_def)
    from reporting_run [OF this later, of w cfg] first(1) that show ?thesis
      by (simp add: s1_def)
  qed
  define s2 where "s2 = step w cfg s1 (ApiDone 0)"
  have second: "statuses (trace s2) = [(''pending'', ''Deploy started'')]"
      "coroutines s2 = [AwaitFetch d]" "processes s2 = []"
    if "access_ok w (cwd d)"
  proof -
    from that first have c1: "coroutines s1 = [AwaitPending d]" by simp
    show "statuses (trace s2) = [(''pending'', ''Deploy started'')]"
      "coroutines s2 = [AwaitFetch d]" "processes s2 = []"
      using that first by (simp_all add: s2_def resume_only [OF c1] runGit_def)
  qed
  have fetch: "statuses (trace (run w cfg init
                       (Request r # ApiDone 0 # GitDone 0 (Inl err) # evs))) =
               [(''pending'', ''Deploy started''), (''error'', ''Git fetch/checkout failed'')]"
    if "access_ok w (cwd d)" for err
  proof -
    define s3 where "s3 = step w cfg s2 (GitDone 0 (Inl err))"
    note c2 = second(2) [OF that]
    have st: "statuses (trace s3) =
        [(''pending'', ''Deploy started''), (''error'', ''Git fetch/checkout failed'')]"
      using second [OF that] assms(6,7) sha
      by (simp add: s3_def resume_only [OF c2] resume_git_def)
    have "reporting s3"
      using second [OF that]
      by (simp add: s3_def reporting_def resume_only [OF c2] resume_git_def)
    from reporting_run [OF this later, of w cfg] st show ?thesis
      by (simp add: s1_def s2_def s3_def)
  qed
  have checkout: "statuses (trace (run w cfg init
                       (Request r # ApiDone 0 # GitDone 0 (Inr out) # GitDone 0 (Inl err) # evs))) =
               [(''pending'', ''Deploy started''), (''error'', ''Git fetch/checkout failed'')]"
    if "access_ok w (cwd d)" for out err
  proof -
    define s3 where "s3 = step w cfg s2 (GitDone 0 (Inr out))"
    define s4 where "s4 = step w cfg s3 (GitDone 0 (Inl err))"
    note c2 = second(2) [OF that]
    have third: "statuses (trace s3) = [(''pending'', ''Deploy started'')]"
      "coroutines s3 = [AwaitCheckout d]" "processes s3 = []"
      using second [OF that]
      by (simp_all add: s3_def resume_only [OF c2] resume_git_def runGit_def)
    note c3 = third(2)
    have st: "statuses (trace s4) =
        [(''pending'', ''Deploy started''), (''error'', ''Git fetch/checkout failed'')]"
      using third assms(6,7) sha
      by (simp add: s4_def resume_only [OF c3] resume_git_def)
    have "reporting s4"
      using third
      by (simp add: s4_def reporting_def resume_only [OF c3] resume_git_def)
    from reporting_run [OF this later, of w cfg] st show ?thesis
      by (simp add: s1_def s2_def s3_def s4_def)
  qed
  have order: "\<exists>rest. statuses (trace (run w cfg init (Request r # evs))) =
                      (''pending'', ''Deploy started'') # rest \<and>
                    ''pending'' \<notin> fst ` set rest"
    if "access_ok w (cwd d)"
  proof -
    from run_quiet [OF later, of w cfg s1] obtain new where
      new: "trace (run w cfg s1 evs) = trace s1 @ new" "quiet new" by blast
    have "statuses (trace (run w cfg init (Request r # evs))) =
        (''pending'', ''Deploy started'') # statuses new"
      using new(1) first(1) that by (simp add: s1_def)
    moreover have "''pending'' \<notin> fst ` set (statuses new)"
      using new(2) by (simp add: quiet_def)
    ultimately show ?thesis by blast
  qed
  from missing fetch checkout order show ?thesis by blast
qed

lemma sample_parse_main:
  "json_parse sample_world push_main =
     Inr (push_event ''refs/heads/main'' ''3f2a9c1d5e'' ''acme/site'' ''site'')"
  by (simp add: sample_world_def sample_parse_def sample_bodies)

theorem pending_precedes_terminal_witness:
  "statuses (trace (sample_run
      [Request (signed push_main), ApiDone 0, GitDone 0 (Inl (JsError ''fatal: bad object'' [])),
       ApiDone 0, ApiDone 0])) =
     [(''pending'', ''Deploy started''), (''error'', ''Git fetch/checkout failed'')]"
proof -
  let ?d = "sample_deploy ''acme'' ''site'' ''3f2a9c1d5e''"
  have filtered: "filter_event sample_world
        (push_event ''refs/heads/main'' ''3f2a9c1d5e'' ''acme/site'' ''site'') = Inr (Deploy ?d)"
    using sample_filter [of sample_world "''3f2a9c1d5e''" "''acme''" "''site''"] by simp
  have named: "truthy (repo ?d)" and present: "access_ok sample_world (cwd ?d)"
    by (simp_all add: sample_deploy_def)
  have later: "\<forall>r'. Request r' \<notin> set [ApiDone 0, ApiDone 0]" by simp
  from pending_precedes_terminal [OF sample_fields(1) sample_fields(2) sample_verify
      sample_parse_main filtered sample_fields(3) named later] present
  show ?thesis unfolding sample_run_def by blast
qed

text \<open>
  The claim as it was made says that a failed fetch is reported by a single \<open>error\<close>
  with no \<open>pending\<close> before it. On the sample installation the fetch of a signed push to
  \<open>main\<close> fails, and the statuses are \<open>pending\<close>, then \<open>error\<close>.
\<close>

theorem fetch_failure_reports_pending:
  "statuses (trace (sample_run
      [Request (signed push_main), ApiDone 0, GitDone 0 (Inl (JsError ''fatal: bad object'' []))])) =
     [(''pending'', ''Deploy started''), (''error'', ''Git fetch/checkout failed'')]"
  by code_simp

subsection \<open>The deploy lock\<close>

text \<open>
  A request that finds its key in the set does nothing. The end of \<open>deployFn\<close>, however,
  comes right after the spawn, and with it the \<open>finally\<close> that deletes the key: the key has
  left the set while the process it stands for is running. (The earlier \<open>webhook.js\<close>
  deleted the key in the \<open>close\<close> and \<open>error\<close> handlers of the process instead.)
\<close>

lemma withDeployLock_held:
  "key \<in> runningDeploys s \<Longrightarrow> withDeployLock key fn s = s"
  by (simp add: withDeployLock_def)

lemma launch_releases_lock:
  "deployKey d \<notin> runningDeploys (snd (launch d logPath s)) \<and>
   last (processes (snd (launch d logPath s))) =
     \<lparr>origin = d, lines = [], logStream = logPath, closed = False\<rparr>"
  by simp

text \<open>
  C1. The claim is that of two deploy attempts with one key the second is refused until
  the first deploy has terminated. On the sample installation a signed push to \<open>main\<close>
  of \<open>acme/site\<close> is fetched, checked out and launched; with its \<open>just\<close> process still
  running the set of running deploys is empty. The same push, sent again at that moment,
  takes the lock, reports \<open>pending\<close> and launches a second \<open>just\<close> in the same directory:
  two deploy processes with the key \<open>acme/site:main\<close> run at once.
\<close>

theorem second_deploy_not_skipped:
  "runningDeploys (sample_run
      [Request (signed push_main), ApiDone 0, GitDone 0 (Inr []), GitDone 0 (Inr [])]) = {} \<and>
   map closed (processes (sample_run
      [Request (signed push_main), ApiDone 0, GitDone 0 (Inr []), GitDone 0 (Inr [])])) = [False] \<and>
   spawns (trace (sample_run
      [Request (signed push_main), ApiDone 0, GitDone 0 (Inr []), GitDone 0 (Inr []),
       Request (signed push_main), ApiDone 1, GitDone 1 (Inr []), GitDone 1 (Inr [])])) =
     [(''git'', ''repos/site''), (''git'', ''repos/site''), (''just'', ''repos/site''),
      (''git'', ''repos/site''), (''git'', ''repos/site''), (''just'', ''repos/site'')] \<and>
   statuses (trace (sample_run
      [Request (signed push_main), ApiDone 0, GitDone 0 (Inr []), GitDone 0 (Inr []),
       Request (signed push_main), ApiDone 1, GitDone 1 (Inr []), GitDone 1 (Inr [])])) =
     [(''pending'', ''Deploy started''), (''pending'', ''Deploy started'')] \<and>
   map (\<lambda>p. (deployKey (origin p), closed p)) (processes (sample_run
      [Request (signed push_main), ApiDone 0, GitDone 0 (Inr []), GitDone 0 (Inr []),
       Request (signed push_main), ApiDone 1, GitDone 1 (Inr []), GitDone 1 (Inr [])])) =
     [(''acme/site:main'', False), (''acme/site:main'', False)]"
  by code_simp

end
